theory Spec2Isabelle
  imports
    Complex_Main
    "HOL-Library.Word"
    "HOL-Library.Multiset"
    "HOL-Library.Char_ord"
    "HOL-Library.List_Lexorder"
begin

section \<open>Printing numbers\<close>

text \<open>
  JavaScript prints a number (template literals, \<^verbatim>\<open>toString()\<close>, \<^verbatim>\<open>JSON.stringify\<close>) with
  the shortest digits that read back as the same double. For an integer of magnitude up to
  \<open>2\<^sup>5\<^sup>3\<close> these are its decimal digits, with a leading minus sign for a negative
  one. Numbers are modelled as \<^typ>\<open>int\<close> and printed so: the model stands for the
  integer-valued numbers in that range. Larger integers (JavaScript rounds their digits)
  and numbers with a fraction are outside the model.
\<close>

definition digit :: "int \<Rightarrow> char" where
  "digit d = ''0123456789'' ! nat (d mod 10)"

function digits :: "int \<Rightarrow> string" where
  "digits n = (if n < 10 then [digit n] else digits (n div 10) @ [digit n])"
  by pat_completeness auto
termination
  by (relation "measure nat") auto

declare digits.simps [simp del]

definition toString :: "int \<Rightarrow> string" where
  "toString i = (if i < 0 then ''-'' @ digits (- i) else digits i)"

section \<open>The Queue Store (\<^verbatim>\<open>src/redis-queue.ts\<close>)\<close>

subsection \<open>Redis primitives\<close>

text \<open>
  A Redis list is a HOL list whose head is the left end: \<^verbatim>\<open>LPUSH\<close> conses,
  \<^verbatim>\<open>BRPOP\<close> takes the last element and answers nothing on an empty list
  (the timeout elapsed). A Redis set is a list without repetitions, in the order in which
  \<^verbatim>\<open>SMEMBERS\<close> enumerates it; \<^verbatim>\<open>SADD\<close> answers 1 for a new member and 0 for an old one.
  A Redis hash and the plain string keys are maps. Every operation below is the effect of
  one caller running alone; interleavings of several processes are not modelled.
\<close>

definition lpush :: "string list \<Rightarrow> string \<Rightarrow> string list" where
  "lpush xs x = x # xs"

definition lpush_many :: "string list \<Rightarrow> string list \<Rightarrow> string list" where
  "lpush_many xs vs = foldl lpush xs vs"

definition brpop :: "string list \<Rightarrow> string option \<times> string list" where
  "brpop xs = (if xs = [] then (None, xs) else (Some (last xs), butlast xs))"

definition sismember :: "string list \<Rightarrow> string \<Rightarrow> bool" where
  "sismember xs x = (x \<in> set xs)"

definition sadd :: "string list \<Rightarrow> string \<Rightarrow> nat \<times> string list" where
  "sadd xs x = (if x \<in> set xs then (0, xs) else (1, xs @ [x]))"

definition srem :: "string list \<Rightarrow> string \<Rightarrow> string list" where
  "srem xs x = removeAll x xs"

definition scard :: "string list \<Rightarrow> nat" where
  "scard xs = length xs"

definition hincrby :: "(string \<rightharpoonup> int) \<Rightarrow> string \<Rightarrow> int \<Rightarrow> int \<times> (string \<rightharpoonup> int)" where
  "hincrby h k d = (let v = (case h k of None \<Rightarrow> 0 | Some n \<Rightarrow> n) + d in (v, h(k \<mapsto> v)))"

subsection \<open>The keys of one portal\<close>

record snapshot =
  checksum :: string
  snap_price :: int
  snap_status :: string
  updated_at :: int

record store =
  queue :: "string list"
  all_ids :: "string list"
  processed :: "string list"
  failed :: "string list"
  failed_errors :: "string \<rightharpoonup> string"
  retries :: "string \<rightharpoonup> int"
  started_at :: "int option"
  last_seen :: "string \<rightharpoonup> int"
  missing_queue :: "string list"
  verified_inactive :: "string list"
  snapshots :: "string \<rightharpoonup> snapshot"

definition empty_store :: store where
  "empty_store = \<lparr>queue = [], all_ids = [], processed = [], failed = [],
     failed_errors = Map.empty, retries = Map.empty, started_at = None,
     last_seen = Map.empty, missing_queue = [], verified_inactive = [],
     snapshots = Map.empty\<rparr>"

subsection \<open>Main lane\<close>

text \<open>Every operation takes the store and returns its result with the store it leaves;
  \<open>now\<close> is the reading of \<^verbatim>\<open>Date.now()\<close> in milliseconds.\<close>

definition initialize :: "int \<Rightarrow> store \<Rightarrow> store" where
  "initialize now s = (case started_at s of None \<Rightarrow> s\<lparr>started_at := Some now\<rparr> | Some _ \<Rightarrow> s)"

definition pushListingId :: "string \<Rightarrow> store \<Rightarrow> bool \<times> store" where
  "pushListingId i s =
     (if sismember (all_ids s) i then (False, s)
      else (True, s\<lparr>queue := lpush (queue s) i, all_ids := snd (sadd (all_ids s) i)\<rparr>))"

fun pipeline_batch :: "int \<Rightarrow> string list \<Rightarrow> store \<Rightarrow> string list \<times> store" where
  "pipeline_batch timestamp [] s = ([], s)"
| "pipeline_batch timestamp (i # batch) s =
     (let (r, members) = sadd (all_ids s) i;
          s1 = s\<lparr>all_ids := members, last_seen := (last_seen s)(i \<mapsto> timestamp)\<rparr>;
          (newIds, s2) = pipeline_batch timestamp batch s1
      in ((if r = 1 then i # newIds else newIds), s2))"

function pushListingIds_loop :: "int \<Rightarrow> string list \<Rightarrow> nat \<Rightarrow> store \<Rightarrow> nat \<times> store" where
  "pushListingIds_loop timestamp ids addedCount s =
     (if ids = [] then (addedCount, s)
      else
        (let batch = take 1000 ids;
             (newIds, s1) = pipeline_batch timestamp batch s
         in if length newIds > 0
            then pushListingIds_loop timestamp (drop 1000 ids) (addedCount + length newIds)
                   (s1\<lparr>queue := lpush_many (queue s1) newIds\<rparr>)
            else pushListingIds_loop timestamp (drop 1000 ids) addedCount s1))"
  by pat_completeness auto
termination
  by (relation "measure (\<lambda>(t, ids, a, s). length ids)") auto

declare pushListingIds_loop.simps [simp del]

definition pushListingIds :: "int \<Rightarrow> string list \<Rightarrow> store \<Rightarrow> nat \<times> store" where
  "pushListingIds now ids s = pushListingIds_loop now ids 0 s"

definition popListingId :: "store \<Rightarrow> string option \<times> store" where
  "popListingId s = (let (r, q) = brpop (queue s) in (r, s\<lparr>queue := q\<rparr>))"

definition isProcessed :: "string \<Rightarrow> store \<Rightarrow> bool" where
  "isProcessed i s = sismember (processed s) i"

definition markProcessed :: "string \<Rightarrow> store \<Rightarrow> store" where
  "markProcessed i s = s\<lparr>processed := snd (sadd (processed s) i)\<rparr>"

text \<open>The optional \<^verbatim>\<open>error\<close> argument is recorded only when it is a non-empty string.\<close>

definition markFailed :: "string \<Rightarrow> string option \<Rightarrow> store \<Rightarrow> store" where
  "markFailed i err s =
     (let s1 = s\<lparr>failed := snd (sadd (failed s) i)\<rparr>
      in case err of
           None \<Rightarrow> s1
         | Some e \<Rightarrow> if e = [] then s1 else s1\<lparr>failed_errors := (failed_errors s1)(i \<mapsto> e)\<rparr>)"

definition incrementRetry :: "string \<Rightarrow> store \<Rightarrow> int \<times> store" where
  "incrementRetry i s = (let (n, h) = hincrby (retries s) i 1 in (n, s\<lparr>retries := h\<rparr>))"

definition getRetryCount :: "string \<Rightarrow> store \<Rightarrow> int" where
  "getRetryCount i s = (case retries s i of None \<Rightarrow> 0 | Some n \<Rightarrow> n)"

definition max_retries_reason :: "int \<Rightarrow> string" where
  "max_retries_reason maxRetries = ''Max retries ('' @ toString maxRetries @ '') exceeded''"

definition requeueWithRetry :: "string \<Rightarrow> int \<Rightarrow> store \<Rightarrow> bool \<times> store" where
  "requeueWithRetry i maxRetries s =
     (let (n, s1) = incrementRetry i s
      in if n \<le> maxRetries
         then (True, s1\<lparr>queue := lpush (queue s1) i\<rparr>)
         else (False, markFailed i (Some (max_retries_reason maxRetries)) s1))"

fun retry_pipeline :: "string list \<Rightarrow> store \<Rightarrow> store" where
  "retry_pipeline [] s = s"
| "retry_pipeline (i # failedIds) s =
     retry_pipeline failedIds
       (s\<lparr>failed := srem (failed s) i, queue := lpush (queue s) i,
          retries := (retries s)(i := None)\<rparr>)"

definition retryFailedListings :: "store \<Rightarrow> nat \<times> store" where
  "retryFailedListings s =
     (let failedIds = failed s
      in if length failedIds = 0 then (0, s) else (length failedIds, retry_pipeline failedIds s))"

definition clear :: "store \<Rightarrow> store" where
  "clear s = s\<lparr>queue := [], all_ids := [], processed := [], failed := [],
                retries := Map.empty, started_at := None\<rparr>"

subsection \<open>Last-seen marks and the missing lane\<close>

definition updateLastSeen :: "int \<Rightarrow> string \<Rightarrow> store \<Rightarrow> store" where
  "updateLastSeen now i s = s\<lparr>last_seen := (last_seen s)(i \<mapsto> now)\<rparr>"

definition getLastSeen :: "string \<Rightarrow> store \<Rightarrow> int option" where
  "getLastSeen i s = last_seen s i"

text \<open>
  \<^verbatim>\<open>!lastSeen\<close> holds for \<^verbatim>\<open>null\<close> and for the number 0. The threshold is a whole
  number of hours, as the defaults 12 and 24 are.
\<close>

definition not_seen_recently :: "int option \<Rightarrow> int \<Rightarrow> bool" where
  "not_seen_recently lastSeen cutoffTime =
     (case lastSeen of None \<Rightarrow> True | Some t \<Rightarrow> t = 0 \<or> t < cutoffTime)"

definition findMissingProperties :: "int \<Rightarrow> int \<Rightarrow> store \<Rightarrow> string list" where
  "findMissingProperties now hoursThreshold s =
     (let allIds = all_ids s;
          cutoffTime = now - hoursThreshold * 60 * 60 * 1000
      in filter (\<lambda>i. not_seen_recently (getLastSeen i s) cutoffTime) allIds)"

fun pushToMissingQueue_loop :: "string list \<Rightarrow> nat \<Rightarrow> store \<Rightarrow> nat \<times> store" where
  "pushToMissingQueue_loop [] newCount s = (newCount, s)"
| "pushToMissingQueue_loop (i # ids) newCount s =
     (if sismember (verified_inactive s) i then pushToMissingQueue_loop ids newCount s
      else pushToMissingQueue_loop ids (newCount + 1)
             (s\<lparr>missing_queue := lpush (missing_queue s) i\<rparr>))"

definition pushToMissingQueue :: "string list \<Rightarrow> store \<Rightarrow> nat \<times> store" where
  "pushToMissingQueue ids s = (if length ids = 0 then (0, s) else pushToMissingQueue_loop ids 0 s)"

definition popFromMissingQueue :: "store \<Rightarrow> string option \<times> store" where
  "popFromMissingQueue s = (let (r, q) = brpop (missing_queue s) in (r, s\<lparr>missing_queue := q\<rparr>))"

definition markVerifiedInactive :: "string \<Rightarrow> store \<Rightarrow> store" where
  "markVerifiedInactive i s =
     s\<lparr>verified_inactive := snd (sadd (verified_inactive s) i),
       processed := srem (processed s) i\<rparr>"

definition isVerifiedInactive :: "string \<Rightarrow> store \<Rightarrow> bool" where
  "isVerifiedInactive i s = sismember (verified_inactive s) i"

section \<open>Fingerprints (\<^verbatim>\<open>src/redis-queue.ts\<close>, change detection)\<close>

subsection \<open>The raw listing\<close>

text \<open>
  The listing is an untyped object in the source. The model gives it the fields the store
  reads, each of them possibly missing: numbers are integers (of magnitude up to
  \<open>2\<^sup>5\<^sup>3\<close>, see above), texts are strings of code units below 256, multi-valued
  fields are arrays of strings.
\<close>

record property =
  listing_id :: "string option"
  MlsNumber :: "string option"
  rent :: "int option"
  salePrice :: "int option"
  price :: "int option"
  description :: "string option"
  visitStatus :: "string option"
  status :: "string option"
  imageList :: "string list option"
  images :: "string list option"
  amenities :: "string list option"
  installations :: "string list option"
  bedrooms :: "int option"
  bathrooms :: "int option"
  area :: "int option"
  address :: "string option"
  city :: "string option"

text \<open>
  \<^verbatim>\<open>a || d\<close>: the left operand when it is truthy, the right one otherwise. A missing field,
  the number 0 and the empty string are falsy; every array is truthy, the empty one too.
\<close>

definition num_or :: "int option \<Rightarrow> int \<Rightarrow> int" where
  "num_or a d = (case a of None \<Rightarrow> d | Some n \<Rightarrow> if n = 0 then d else n)"

definition str_or :: "string option \<Rightarrow> string \<Rightarrow> string" where
  "str_or a d = (case a of None \<Rightarrow> d | Some x \<Rightarrow> if x = [] then d else x)"

definition arr_or :: "string list option \<Rightarrow> string list \<Rightarrow> string list" where
  "arr_or a d = (case a of None \<Rightarrow> d | Some xs \<Rightarrow> xs)"

fun join :: "string \<Rightarrow> string list \<Rightarrow> string" where
  "join sep [] = []"
| "join sep [x] = x"
| "join sep (x # y # ys) = x @ sep @ join sep (y # ys)"

text \<open>
  \<^verbatim>\<open>Array.prototype.sort()\<close> without a comparator orders strings by their code units,
  a proper prefix first: the lexicographic order on \<^typ>\<open>string\<close>. It sorts in place, so
  an array found on the listing is left sorted there.
\<close>

definition sort_in_place :: "string list option \<Rightarrow> string list option" where
  "sort_in_place a = map_option sort a"

subsection \<open>\<^verbatim>\<open>JSON.stringify\<close> of the canonical record\<close>

datatype json_value = JNumber int | JString string

definition hex_digit :: "nat \<Rightarrow> char" where
  "hex_digit n = ''0123456789abcdef'' ! (n mod 16)"

definition quote_char :: "char \<Rightarrow> string" where
  "quote_char c =
     (if c = CHR 0x22 then [CHR 0x5C, CHR 0x22]
      else if c = CHR 0x5C then [CHR 0x5C, CHR 0x5C]
      else if c = CHR 0x08 then [CHR 0x5C, CHR ''b'']
      else if c = CHR 0x0C then [CHR 0x5C, CHR ''f'']
      else if c = CHR 0x0A then [CHR 0x5C, CHR ''n'']
      else if c = CHR 0x0D then [CHR 0x5C, CHR ''r'']
      else if c = CHR 0x09 then [CHR 0x5C, CHR ''t'']
      else if (of_char c :: nat) < 32
        then [CHR 0x5C, CHR ''u'', CHR ''0'', CHR ''0'',
              hex_digit (of_char c div 16), hex_digit (of_char c)]
      else [c])"

definition quote :: "string \<Rightarrow> string" where
  "quote str = [CHR 0x22] @ concat (map quote_char str) @ [CHR 0x22]"

fun stringify_value :: "json_value \<Rightarrow> string" where
  "stringify_value (JNumber n) = toString n"
| "stringify_value (JString x) = quote x"

definition stringify_member :: "string \<times> json_value \<Rightarrow> string" where
  "stringify_member m = quote (fst m) @ '':'' @ stringify_value (snd m)"

definition stringify :: "(string \<times> json_value) list \<Rightarrow> string" where
  "stringify members = ''{'' @ join '','' (map stringify_member members) @ ''}''"

subsection \<open>The checksum\<close>

text \<open>
  The members of \<^verbatim>\<open>importantData\<close>, in the order the object literal lists them.
\<close>

definition importantData :: "property \<Rightarrow> (string \<times> json_value) list" where
  "importantData p =
     [(''price'', JNumber (num_or (rent p) (num_or (salePrice p) (num_or (price p) 0)))),
      (''description'', JString (str_or (description p) [])),
      (''status'', JString (str_or (visitStatus p) (str_or (status p) ''unknown''))),
      (''images'', JString (join ''|'' (arr_or (imageList p) (arr_or (images p) [])))),
      (''amenities'', JString (join ''|'' (sort (arr_or (amenities p) [])))),
      (''features'', JString (join ''|'' (sort (arr_or (installations p) [])))),
      (''bedrooms'', JNumber (num_or (bedrooms p) 0)),
      (''bathrooms'', JNumber (num_or (bathrooms p) 0)),
      (''area'', JNumber (num_or (area p) 0)),
      (''address'', JString (str_or (address p) [])),
      (''city'', JString (str_or (city p) []))]"

text \<open>
  \<^verbatim>\<open>hash << 5\<close> wraps to 32 bits; the subtraction and the addition of the code unit are
  exact in a double, and \<^verbatim>\<open>hash & hash\<close> brings the sum back to a signed 32-bit integer.
  So one round is 32-bit arithmetic, and the result prints as a signed decimal.
\<close>

definition hash_step :: "32 word \<Rightarrow> char \<Rightarrow> 32 word" where
  "hash_step hash c = (let h = (push_bit 5 hash - hash) + of_char c in and h h)"

definition hash32 :: "string \<Rightarrow> 32 word" where
  "hash32 str = foldl hash_step 0 str"

definition hashString :: "string \<Rightarrow> string" where
  "hashString str = toString (sint (hash32 str))"

definition dataString :: "property \<Rightarrow> string" where
  "dataString p = stringify (importantData p)"

text \<open>The checksum, and the listing as the two in-place sorts leave it.\<close>

definition calculatePropertyChecksum :: "property \<Rightarrow> string \<times> property" where
  "calculatePropertyChecksum p =
     (hashString (dataString p),
      p\<lparr>amenities := sort_in_place (amenities p),
        installations := sort_in_place (installations p)\<rparr>)"

definition storePropertySnapshot :: "int \<Rightarrow> string \<Rightarrow> property \<Rightarrow> store \<Rightarrow> store \<times> property" where
  "storePropertySnapshot now i p s =
     (let (c, p1) = calculatePropertyChecksum p;
          snap = \<lparr>checksum = c,
                  snap_price = num_or (rent p1) (num_or (salePrice p1) (num_or (price p1) 0)),
                  snap_status = str_or (visitStatus p1) (str_or (status p1) ''unknown''),
                  updated_at = now\<rparr>
      in (s\<lparr>snapshots := (snapshots s)(i \<mapsto> snap)\<rparr>, p1))"

definition getPropertySnapshot :: "string \<Rightarrow> store \<Rightarrow> snapshot option" where
  "getPropertySnapshot i s = snapshots s i"

definition hasPropertyChanged :: "string \<Rightarrow> property \<Rightarrow> store \<Rightarrow> bool \<times> property" where
  "hasPropertyChanged i currentProperty s =
     (case getPropertySnapshot i s of
        None \<Rightarrow> (True, currentProperty)
      | Some snap \<Rightarrow>
          (let (currentChecksum, p1) = calculatePropertyChecksum currentProperty
           in if checksum snap \<noteq> currentChecksum then (True, p1) else (False, p1)))"

subsection \<open>Sequences of store operations\<close>

datatype op =
    Initialize int
  | PushListingId string
  | PushListingIds int "string list"
  | PopListingId
  | MarkProcessed string
  | MarkFailed string "string option"
  | RequeueWithRetry string int
  | RetryFailedListings
  | Clear
  | UpdateLastSeen int string
  | PushToMissingQueue "string list"
  | PopFromMissingQueue
  | MarkVerifiedInactive string
  | StorePropertySnapshot int string property

fun exec :: "op \<Rightarrow> store \<Rightarrow> store" where
  "exec (Initialize now) s = initialize now s"
| "exec (PushListingId i) s = snd (pushListingId i s)"
| "exec (PushListingIds now ids) s = snd (pushListingIds now ids s)"
| "exec PopListingId s = snd (popListingId s)"
| "exec (MarkProcessed i) s = markProcessed i s"
| "exec (MarkFailed i err) s = markFailed i err s"
| "exec (RequeueWithRetry i maxRetries) s = snd (requeueWithRetry i maxRetries s)"
| "exec RetryFailedListings s = snd (retryFailedListings s)"
| "exec Clear s = clear s"
| "exec (UpdateLastSeen now i) s = updateLastSeen now i s"
| "exec (PushToMissingQueue ids) s = snd (pushToMissingQueue ids s)"
| "exec PopFromMissingQueue s = snd (popFromMissingQueue s)"
| "exec (MarkVerifiedInactive i) s = markVerifiedInactive i s"
| "exec (StorePropertySnapshot now i p) s = fst (storePropertySnapshot now i p s)"

definition run :: "op list \<Rightarrow> store \<Rightarrow> store" where
  "run ops s = fold exec ops s"

definition disjoint_classes :: "store \<Rightarrow> bool" where
  "disjoint_classes s =
     (set (processed s) \<inter> set (failed s) = {} \<and>
      set (processed s) \<inter> set (verified_inactive s) = {} \<and>
      set (failed s) \<inter> set (verified_inactive s) = {})"

text \<open>The retry loop of a caller: \<open>n\<close> calls of \<^verbatim>\<open>requeueWithRetry\<close> in a row.\<close>

fun requeue_times :: "nat \<Rightarrow> string \<Rightarrow> int \<Rightarrow> store \<Rightarrow> store" where
  "requeue_times 0 i maxRetries s = s"
| "requeue_times (Suc n) i maxRetries s =
     snd (requeueWithRetry i maxRetries (requeue_times n i maxRetries s))"

section \<open>The collaborators\<close>

text \<open>
  What a remote call can do is a parameter of the model: the answer of the portal to a detail
  request, the outcome of a POST to the Core Service, the normalizer. A rejected promise
  is an \<open>error\<close> value; the lists of requests record every POST that was issued.
\<close>

datatype error = HttpStatus nat | Network string

datatype body = NoBody | Text string | Details "string option"

datatype http_outcome = Response body | Failure error

record 'd payload =
  portal :: string
  portal_id :: string
  country :: string
  data :: 'd
  raw_data :: property
  payload_status :: string

record inactive_mark =
  mark_portal :: string
  mark_portal_id :: string
  mark_country :: string
  reason :: string
  inactive_at :: int

record 'd env =
  apiKey :: string
  fetchDetail :: "string \<Rightarrow> error + property option"
  transformToStandard :: "property \<Rightarrow> 'd"
  post_ingest :: "'d payload \<Rightarrow> error option"
  post_details :: "string \<Rightarrow> http_outcome"
  post_mark_inactive :: "inactive_mark \<Rightarrow> error option"

definition config_portal :: string where
  "config_portal = ''realtor''"

definition config_country :: string where
  "config_country = ''canada''"

subsection \<open>Core Service client\<close>

definition sendToCoreService ::
  "'d env \<Rightarrow> 'd payload \<Rightarrow> 'd payload list \<Rightarrow> (error \<times> 'd payload list) + 'd payload list" where
  "sendToCoreService e pl sent =
     (if apiKey e = [] then Inr sent
      else case post_ingest e pl of
             Some err \<Rightarrow> Inl (err, sent @ [pl])
           | None \<Rightarrow> Inr (sent @ [pl]))"

definition markPropertyInactive ::
  "'d env \<Rightarrow> int \<Rightarrow> string \<Rightarrow> string \<Rightarrow> string \<Rightarrow> string \<Rightarrow> inactive_mark list \<Rightarrow>
     (error \<times> inactive_mark list) + inactive_mark list" where
  "markPropertyInactive e now prtl portalId ctry rsn marks =
     (if apiKey e = [] then Inr marks
      else
        (let m = \<lparr>mark_portal = prtl, mark_portal_id = portalId, mark_country = ctry,
                   reason = rsn, inactive_at = now\<rparr>
         in case post_mark_inactive e m of
              Some err \<Rightarrow> Inl (err, marks @ [m])
            | None \<Rightarrow> Inr (marks @ [m])))"

section \<open>The Inspection Worker\<close>

record 'd worker =
  wstore :: store
  sink :: "'d payload list"
  processedCount :: nat
  failedCount :: nat
  changedCount :: nat
  unchangedCount :: nat

text \<open>
  The detail fetch as the source has it: the object literal with the two identifier
  fields, which no remote call fills in.
\<close>

definition listing_of :: "string \<Rightarrow> property" where
  "listing_of mlsNumber =
     \<lparr>listing_id = Some mlsNumber, MlsNumber = Some mlsNumber, rent = None,
      salePrice = None, price = None, description = None, visitStatus = None,
      status = None, imageList = None, images = None, amenities = None,
      installations = None, bedrooms = None, bathrooms = None, area = None,
      address = None, city = None\<rparr>"

definition fetchPropertyDetail :: "string \<Rightarrow> error + property option" where
  "fetchPropertyDetail mlsNumber = Inr (Some (listing_of mlsNumber))"

text \<open>The object handed to \<^verbatim>\<open>sendToCoreService\<close>.\<close>

definition ingest_payload :: "'d env \<Rightarrow> string \<Rightarrow> property \<Rightarrow> 'd payload" where
  "ingest_payload e i p =
     \<lparr>portal = config_portal, portal_id = i, country = config_country,
      data = transformToStandard e p, raw_data = p, payload_status = ''active''\<rparr>"

text \<open>The branch taken on a detected change: normalize, send, store the snapshot.\<close>

definition on_changed ::
  "'d env \<Rightarrow> int \<Rightarrow> string \<Rightarrow> property \<Rightarrow> 'd worker \<Rightarrow> (error \<times> 'd worker) + 'd worker" where
  "on_changed e now i p w =
     (let sent =
            (if apiKey e \<noteq> [] then sendToCoreService e (ingest_payload e i p) (sink w)
             else Inr (sink w))
      in case sent of
           Inl (err, sk) \<Rightarrow> Inl (err, w\<lparr>sink := sk\<rparr>)
         | Inr sk \<Rightarrow>
             Inr (w\<lparr>sink := sk,
                    wstore := fst (storePropertySnapshot now i p (wstore w)),
                    changedCount := changedCount w + 1\<rparr>))"

text \<open>The body of the \<^verbatim>\<open>try\<close> block: \<open>Inl\<close> is a thrown error with the state it leaves.\<close>

definition processListing_try ::
  "'d env \<Rightarrow> int \<Rightarrow> string \<Rightarrow> 'd worker \<Rightarrow> (error \<times> 'd worker) + (bool \<times> 'd worker)" where
  "processListing_try e now i w =
     (if isProcessed i (wstore w) then Inr (True, w)
      else case fetchDetail e i of
        Inl err \<Rightarrow> Inl (err, w)
      | Inr None \<Rightarrow> Inr (False, w\<lparr>wstore := markFailed i (Some ''Not found'') (wstore w)\<rparr>)
      | Inr (Some property) \<Rightarrow>
          (let (hasChanged, p1) = hasPropertyChanged i property (wstore w);
               compared =
                 (if \<not> hasChanged then Inr (w\<lparr>unchangedCount := unchangedCount w + 1\<rparr>)
                  else on_changed e now i p1 w)
           in case compared of
                Inl thrown \<Rightarrow> Inl thrown
              | Inr w1 \<Rightarrow>
                  Inr (True, w1\<lparr>wstore := markProcessed i (wstore w1),
                                processedCount := processedCount w1 + 1\<rparr>)))"

definition processListing :: "'d env \<Rightarrow> int \<Rightarrow> string \<Rightarrow> 'd worker \<Rightarrow> bool \<times> 'd worker" where
  "processListing e now i w =
     (case processListing_try e now i w of
        Inr r \<Rightarrow> r
      | Inl (err, w1) \<Rightarrow>
          (let (requeued, s1) = requeueWithRetry i 3 (wstore w1);
               w2 = w1\<lparr>wstore := s1\<rparr>
           in (False, if \<not> requeued then w2\<lparr>failedCount := failedCount w2 + 1\<rparr> else w2)))"

section \<open>The Disappearance Verifier (\<^verbatim>\<open>src/worker-verifier.ts\<close>)\<close>

record verifier =
  vstore :: store
  inactive_marks :: "inactive_mark list"
  verifiedInactiveCount :: nat
  foundActiveCount :: nat

text \<open>
  \<^verbatim>\<open>axios.post\<close> resolves on a 2xx answer and rejects otherwise, with the status when
  there was an answer. \<^verbatim>\<open>response.data && response.data.Id\<close> holds for an object
  whose \<^verbatim>\<open>Id\<close> is a non-empty string.
\<close>

definition has_id :: "body \<Rightarrow> bool" where
  "has_id b = (case b of Details (Some x) \<Rightarrow> x \<noteq> [] | _ \<Rightarrow> False)"

definition verifyProperty :: "'d env \<Rightarrow> string \<Rightarrow> error + bool" where
  "verifyProperty e i =
     (case post_details e i of
        Response b \<Rightarrow> if has_id b then Inr True else Inr False
      | Failure err \<Rightarrow> if err = HttpStatus 404 then Inr False else Inl err)"

definition processMissingProperty :: "'d env \<Rightarrow> int \<Rightarrow> string \<Rightarrow> verifier \<Rightarrow> bool \<times> verifier" where
  "processMissingProperty e now i v =
     (case verifyProperty e i of
        Inl err \<Rightarrow> (False, v)
      | Inr exists \<Rightarrow>
          if exists
          then (True, v\<lparr>vstore := updateLastSeen now i (vstore v),
                        foundActiveCount := foundActiveCount v + 1\<rparr>)
          else
            (let marked =
                   (if apiKey e \<noteq> []
                    then markPropertyInactive e now config_portal i config_country
                           ''not_found'' (inactive_marks v)
                    else Inr (inactive_marks v))
             in case marked of
                  Inl (err, ms) \<Rightarrow> (False, v\<lparr>inactive_marks := ms\<rparr>)
                | Inr ms \<Rightarrow>
                    (True, v\<lparr>inactive_marks := ms,
                             vstore := markVerifiedInactive i (vstore v),
                             verifiedInactiveCount := verifiedInactiveCount v + 1\<rparr>)))"

section \<open>The Discovery Driver: the missing-identifier sweep (\<^verbatim>\<open>src/coordinator.ts\<close>)\<close>

definition identifyMissingProperties :: "int \<Rightarrow> int \<Rightarrow> store \<Rightarrow> store" where
  "identifyMissingProperties now hoursThreshold s =
     (let missingIds = findMissingProperties now hoursThreshold s
      in if length missingIds = 0 then s else snd (pushToMissingQueue missingIds s))"

section \<open>The Adaptive Scheduler: region statistics in the scraper database\<close>



datatype area_type = City | Region | GridCell






section \<open>Concrete inputs\<close>

text \<open>Values at which the theorems below are evaluated.\<close>

definition not_found_mark :: "int \<Rightarrow> string \<Rightarrow> inactive_mark" where
  "not_found_mark now i =
     \<lparr>mark_portal = config_portal, mark_portal_id = i, mark_country = config_country,
      reason = ''not_found'', inactive_at = now\<rparr>"

definition demo_env :: "unit env" where
  "demo_env =
     \<lparr>apiKey = ''key'', fetchDetail = fetchPropertyDetail, transformToStandard = (\<lambda>p. ()),
      post_ingest = (\<lambda>pl. None), post_details = (\<lambda>i. Response NoBody),
      post_mark_inactive = (\<lambda>m. None)\<rparr>"

definition empty_verifier :: verifier where
  "empty_verifier =
     \<lparr>vstore = empty_store, inactive_marks = [], verifiedInactiveCount = 0,
      foundActiveCount = 0\<rparr>"

definition empty_worker :: "unit worker" where
  "empty_worker =
     \<lparr>wstore = empty_store, sink = [], processedCount = 0, failedCount = 0,
      changedCount = 0, unchangedCount = 0\<rparr>"

definition sample :: property where
  "sample = (listing_of ''A'')\<lparr>status := Some ''Aa'', amenities := Some [''pool'', ''gym'']\<rparr>"

definition swept_store :: store where
  "swept_store =
     empty_store\<lparr>all_ids := [''A'', ''B'', ''C''], verified_inactive := [''C''],
       last_seen := [''A'' \<mapsto> 1700000000000 - 25 * 60 * 60 * 1000,
                     ''B'' \<mapsto> 1700000000000 - 1 * 60 * 60 * 1000]\<rparr>"

definition env_unavailable :: "unit env" where
  "env_unavailable = demo_env\<lparr>post_details := \<lambda>i. Failure (HttpStatus 503)\<rparr>"

definition env_listed :: "unit env" where
  "env_listed = demo_env\<lparr>post_details := \<lambda>i. Response (Details (Some ''123''))\<rparr>"

definition env_gone :: "unit env" where
  "env_gone = demo_env\<lparr>post_details := \<lambda>i. Failure (HttpStatus 404)\<rparr>"

definition env_gone_rejecting :: "unit env" where
  "env_gone_rejecting =
     demo_env\<lparr>post_details := \<lambda>i. Failure (HttpStatus 404),
               post_mark_inactive := \<lambda>m. Some (Network ''timeout'')\<rparr>"

definition done_worker :: "unit worker" where
  "done_worker = empty_worker\<lparr>wstore := markProcessed ''A'' empty_store\<rparr>"

definition seen_worker :: "unit worker" where
  "seen_worker =
     empty_worker\<lparr>wstore := fst (storePropertySnapshot 1 ''A'' (listing_of ''A'') empty_store)\<rparr>"

definition sample_photos :: property where
  "sample_photos = sample\<lparr>imageList := Some [''1.jpg'', ''2.jpg'']\<rparr>"

definition sample_payload :: "unit payload" where
  "sample_payload =
     \<lparr>portal = ''realtor'', portal_id = ''A'', country = ''canada'', data = (),
      raw_data = listing_of ''A'', payload_status = ''active''\<rparr>"

definition env_no_key :: "unit env" where
  "env_no_key = demo_env\<lparr>apiKey := []\<rparr>"

definition env_rejecting :: "unit env" where
  "env_rejecting = demo_env\<lparr>post_ingest := \<lambda>pl. Some (Network ''timeout'')\<rparr>"

section \<open>Notions used in the proofs\<close>

text \<open>The characters a printed number is made of.\<close>

definition num_char :: "char \<Rightarrow> bool" where
  "num_char c = (c \<in> set ''-0123456789'')"

section \<open>Facts about the primitives\<close>

lemma sadd_set: "set (snd (sadd xs x)) = insert x (set xs)"
  by (auto simp: sadd_def)

lemma srem_set: "set (srem xs x) = set xs - {x}"
  by (auto simp: srem_def)

lemma count_list_filter_out: "\<not> P i \<Longrightarrow> count_list (filter P ids) i = 0"
  by (induction ids) auto

lemma length_filter_count: "\<not> P i \<Longrightarrow> length (filter P ids) + count_list ids i \<le> length ids"
  by (induction ids) auto

section \<open>Pushing one identifier\<close>

lemma pushListingId_eq:
  "pushListingId i s =
     (if i \<in> set (all_ids s) then (False, s)
      else (True, s\<lparr>queue := i # queue s, all_ids := all_ids s @ [i]\<rparr>))"
  by (simp add: pushListingId_def sismember_def sadd_def lpush_def)

text \<open>
  The part of claim C1 that the code keeps: the first push of an identifier answers true,
  the second answers false, and across the two calls the Discovery Set and the main lane
  have each grown by exactly one.
\<close>

lemma pushListingId_twice:
  "i \<notin> set (all_ids s) \<Longrightarrow>
     fst (pushListingId i s) \<and> \<not> fst (pushListingId i (snd (pushListingId i s)))
     \<and> scard (all_ids (snd (pushListingId i (snd (pushListingId i s)))))
         = scard (all_ids s) + 1
     \<and> length (queue (snd (pushListingId i (snd (pushListingId i s)))))
         = length (queue s) + 1"
  by (simp add: pushListingId_eq scard_def)

text \<open>
  Claim C1 says that every push, new or duplicate, refreshes the Last-Seen mark of the
  identifier. \<^verbatim>\<open>pushListingId\<close> never writes a Last-Seen mark: the marks after the call
  are the marks before it. Pushing \<open>A\<close> into the empty store answers true and puts \<open>A\<close>
  in the Discovery Set and on the lane, yet \<open>A\<close> has no Last-Seen mark, nor after a
  second push, and the sweep with a threshold of 24 hours already selects it as missing.
  The batched \<^verbatim>\<open>pushListingIds\<close> does write the mark for the same input.
\<close>

theorem pushListingId_skips_last_seen:
  "last_seen (snd (pushListingId i s)) = last_seen s
   \<and> fst (pushListingId ''A'' empty_store)
   \<and> all_ids (snd (pushListingId ''A'' empty_store)) = [''A'']
   \<and> queue (snd (pushListingId ''A'' empty_store)) = [''A'']
   \<and> getLastSeen ''A'' (snd (pushListingId ''A'' empty_store)) = None
   \<and> getLastSeen ''A'' (snd (pushListingId ''A'' (snd (pushListingId ''A'' empty_store))))
       = None
   \<and> findMissingProperties 1700000000000 24 (snd (pushListingId ''A'' empty_store)) = [''A'']
   \<and> getLastSeen ''A'' (snd (pushListingIds 1700000000000 [''A''] empty_store))
       = Some 1700000000000"
proof -
  have a: "last_seen (snd (pushListingId i s)) = last_seen s"
    by (simp add: pushListingId_eq)
  have b: "snd (pushListingId ''A'' empty_store)
             = empty_store\<lparr>queue := [''A''], all_ids := [''A'']\<rparr>"
    by (simp add: pushListingId_eq empty_store_def)
  have c: "fst (pushListingId ''A'' empty_store)"
    by (simp add: pushListingId_eq empty_store_def)
  have d: "getLastSeen ''A'' (snd (pushListingIds 1700000000000 [''A''] empty_store))
       = Some 1700000000000"
    by (simp add: pushListingIds_def pushListingIds_loop.simps sadd_def empty_store_def
         lpush_many_def lpush_def getLastSeen_def)
  show ?thesis
    using a c d
    by (simp add: b pushListingId_eq getLastSeen_def findMissingProperties_def
          not_seen_recently_def empty_store_def)
qed

section \<open>The retry ceiling\<close>

lemma requeueWithRetry_eq:
  "requeueWithRetry i m s =
     (if getRetryCount i s + 1 \<le> m
      then (True, s\<lparr>retries := (retries s)(i \<mapsto> getRetryCount i s + 1),
                    queue := i # queue s\<rparr>)
      else (False, s\<lparr>retries := (retries s)(i \<mapsto> getRetryCount i s + 1),
                     failed := snd (sadd (failed s) i),
                     failed_errors := (failed_errors s)(i \<mapsto> max_retries_reason m)\<rparr>))"
  by (simp add: requeueWithRetry_def incrementRetry_def hincrby_def getRetryCount_def
        markFailed_def lpush_def max_retries_reason_def Let_def)

lemma requeue_times_within:
  "retries s i = None \<Longrightarrow> int k \<le> m \<Longrightarrow>
     requeue_times k i m s =
       (if k = 0 then s
        else s\<lparr>retries := (retries s)(i \<mapsto> int k), queue := replicate k i @ queue s\<rparr>)"
proof (induction k)
  case 0
  then show ?case by simp
next
  case (Suc k)
  then have eq: "requeue_times k i m s =
       (if k = 0 then s
        else s\<lparr>retries := (retries s)(i \<mapsto> int k), queue := replicate k i @ queue s\<rparr>)"
    by simp
  show ?case using Suc.prems
    by (cases "k = 0") (simp_all add: eq requeueWithRetry_eq getRetryCount_def add.commute)
qed

lemma getRetryCount_requeue_times:
  "retries s i = None \<Longrightarrow> int k \<le> m \<Longrightarrow> getRetryCount i (requeue_times k i m s) = int k"
  by (simp add: requeue_times_within getRetryCount_def)

text \<open>
  Claim C4. Every call of \<^verbatim>\<open>requeueWithRetry\<close> increments the Retry Counter of the
  identifier; when the incremented count is at most \<open>maxRetries\<close> it puts the identifier
  on the main lane and returns true, otherwise it returns false, adds the identifier to
  the Failed set with the max-retries reason and leaves the lane as it is. For an
  identifier without a counter and a ceiling \<open>maxRetries \<ge> 0\<close>: each of the first
  \<open>maxRetries\<close> calls returns true and re-appends, and call number \<open>maxRetries + 1\<close>
  returns false, after which the identifier is in the Failed set with that reason, the
  lane is what it was before that call and the counter reads \<open>maxRetries + 1\<close>.
\<close>

theorem requeueWithRetry_ceiling:
  assumes fresh: "retries s i = None" and m: "0 \<le> m"
  shows "requeueWithRetry i m t =
           (if getRetryCount i t + 1 \<le> m
            then (True, t\<lparr>retries := (retries t)(i \<mapsto> getRetryCount i t + 1),
                          queue := i # queue t\<rparr>)
            else (False, t\<lparr>retries := (retries t)(i \<mapsto> getRetryCount i t + 1),
                           failed := snd (sadd (failed t) i),
                           failed_errors := (failed_errors t)(i \<mapsto> max_retries_reason m)\<rparr>))
       \<and> (\<forall>k. int k < m \<longrightarrow>
            requeueWithRetry i m (requeue_times k i m s) =
              (True, (requeue_times k i m s)
                       \<lparr>retries := (retries (requeue_times k i m s))(i \<mapsto> int k + 1),
                        queue := i # queue (requeue_times k i m s)\<rparr>))
       \<and> fst (requeueWithRetry i m (requeue_times (nat m) i m s)) = False
       \<and> i \<in> set (failed (requeue_times (nat m + 1) i m s))
       \<and> failed_errors (requeue_times (nat m + 1) i m s) i = Some (max_retries_reason m)
       \<and> queue (requeue_times (nat m + 1) i m s) = queue (requeue_times (nat m) i m s)
       \<and> getRetryCount i (requeue_times (nat m + 1) i m s) = m + 1"
proof -
  have a: "\<And>k. int k \<le> m \<Longrightarrow> getRetryCount i (requeue_times k i m s) = int k"
    using fresh by (rule getRetryCount_requeue_times)
  have b: "getRetryCount i (requeue_times (nat m) i m s) = m"
    using a [of "nat m"] m by simp
  have c: "requeueWithRetry i m t =
           (if getRetryCount i t + 1 \<le> m
            then (True, t\<lparr>retries := (retries t)(i \<mapsto> getRetryCount i t + 1),
                          queue := i # queue t\<rparr>)
            else (False, t\<lparr>retries := (retries t)(i \<mapsto> getRetryCount i t + 1),
                           failed := snd (sadd (failed t) i),
                           failed_errors := (failed_errors t)(i \<mapsto> max_retries_reason m)\<rparr>))"
    by (rule requeueWithRetry_eq)
  have d: "(\<forall>k. int k < m \<longrightarrow>
            requeueWithRetry i m (requeue_times k i m s) =
              (True, (requeue_times k i m s)
                       \<lparr>retries := (retries (requeue_times k i m s))(i \<mapsto> int k + 1),
                        queue := i # queue (requeue_times k i m s)\<rparr>))
       \<and> fst (requeueWithRetry i m (requeue_times (nat m) i m s)) = False
       \<and> i \<in> set (failed (requeue_times (nat m + 1) i m s))
       \<and> failed_errors (requeue_times (nat m + 1) i m s) i = Some (max_retries_reason m)
       \<and> queue (requeue_times (nat m + 1) i m s) = queue (requeue_times (nat m) i m s)
       \<and> getRetryCount i (requeue_times (nat m + 1) i m s) = m + 1"
    using a b by (simp add: requeueWithRetry_eq sadd_set getRetryCount_def)
  from c d show ?thesis by (rule conjI)
qed

theorem requeueWithRetry_ceiling_witness:
  "retries empty_store ''A'' = None \<and> (0::int) \<le> 3
   \<and> fst (requeueWithRetry ''A'' 3 (requeue_times (nat 3) ''A'' 3 empty_store)) = False
   \<and> ''A'' \<in> set (failed (requeue_times (nat 3 + 1) ''A'' 3 empty_store))
   \<and> failed_errors (requeue_times (nat 3 + 1) ''A'' 3 empty_store) ''A''
       = Some ''Max retries (3) exceeded''
   \<and> queue (requeue_times (nat 3 + 1) ''A'' 3 empty_store) = [''A'', ''A'', ''A'']"
proof -
  have f: "retries empty_store ''A'' = None" by (simp add: empty_store_def)
  have r: "max_retries_reason 3 = ''Max retries (3) exceeded''"
    by (simp add: max_retries_reason_def toString_def digits.simps digit_def)
  have q: "queue (requeue_times (nat 3) ''A'' 3 empty_store) = [''A'', ''A'', ''A'']"
    using requeue_times_within [of empty_store "''A''" 3 3] f
    by (simp add: empty_store_def eval_nat_numeral)
  have m: "(0::int) \<le> 3" by simp
  note th = requeueWithRetry_ceiling [of empty_store "''A''" 3 empty_store, OF f m]
  show ?thesis
    using th [THEN conjunct2, THEN conjunct2] f r q by simp
qed

section \<open>The missing lane never takes back a verified-inactive identifier\<close>

lemma pushToMissingQueue_loop_eq:
  "pushToMissingQueue_loop ids n s =
     (n + length (filter (\<lambda>j. \<not> isVerifiedInactive j s) ids),
      s\<lparr>missing_queue := rev (filter (\<lambda>j. \<not> isVerifiedInactive j s) ids) @ missing_queue s\<rparr>)"
  by (induction ids arbitrary: n s) (auto simp: isVerifiedInactive_def lpush_def)

lemma pushToMissingQueue_eq:
  "pushToMissingQueue ids s =
     (length (filter (\<lambda>j. \<not> isVerifiedInactive j s) ids),
      s\<lparr>missing_queue := rev (filter (\<lambda>j. \<not> isVerifiedInactive j s) ids) @ missing_queue s\<rparr>)"
  by (cases ids)
    (simp_all add: pushToMissingQueue_def pushToMissingQueue_loop_eq
       del: pushToMissingQueue_loop.simps)

text \<open>
  Claim C9. An identifier of the Verified-Inactive set that occurs in the input of
  \<^verbatim>\<open>pushToMissingQueue\<close> is dropped: the missing lane holds it as often as before, the
  lane grows by exactly the identifiers of the input that are not verified inactive, in
  reverse order of arrival at its left end, and the returned number counts exactly those,
  so it stays below the length of the input by at least the occurrences of the dropped
  identifier.
\<close>

theorem pushToMissingQueue_drops_verified_inactive:
  assumes "isVerifiedInactive i s" and "i \<in> set ids"
  shows "count_list (missing_queue (snd (pushToMissingQueue ids s))) i
           = count_list (missing_queue s) i
       \<and> fst (pushToMissingQueue ids s)
           = length (filter (\<lambda>j. \<not> isVerifiedInactive j s) ids)
       \<and> fst (pushToMissingQueue ids s) + count_list ids i \<le> length ids
       \<and> fst (pushToMissingQueue ids s) < length ids
       \<and> missing_queue (snd (pushToMissingQueue ids s))
           = rev (filter (\<lambda>j. \<not> isVerifiedInactive j s) ids) @ missing_queue s"
proof -
  let ?P = "\<lambda>j. \<not> isVerifiedInactive j s"
  have np: "\<not> ?P i" using assms(1) by simp
  have c: "count_list (filter ?P ids) i = 0" using np by (rule count_list_filter_out)
  have l: "length (filter ?P ids) + count_list ids i \<le> length ids"
    using np by (rule length_filter_count)
  have pos: "0 < count_list ids i" using assms(2) count_list_0_iff [of ids i] by auto
  show ?thesis using c l pos by (simp add: pushToMissingQueue_eq)
qed

theorem pushToMissingQueue_drops_verified_inactive_witness:
  "isVerifiedInactive ''B'' (empty_store\<lparr>verified_inactive := [''B'']\<rparr>)
   \<and> ''B'' \<in> set [''A'', ''B'', ''C'']
   \<and> fst (pushToMissingQueue [''A'', ''B'', ''C'']
            (empty_store\<lparr>verified_inactive := [''B'']\<rparr>)) = 2
   \<and> missing_queue (snd (pushToMissingQueue [''A'', ''B'', ''C'']
            (empty_store\<lparr>verified_inactive := [''B'']\<rparr>))) = [''C'', ''A'']"
  using pushToMissingQueue_drops_verified_inactive
          [of "''B''" "empty_store\<lparr>verified_inactive := [''B'']\<rparr>" "[''A'', ''B'', ''C'']"]
  by (simp add: isVerifiedInactive_def sismember_def empty_store_def)

section \<open>The missing-identifier sweep\<close>

lemma findMissingProperties_set:
  "set (findMissingProperties now h s) =
     {i \<in> set (all_ids s). not_seen_recently (getLastSeen i s) (now - h * 60 * 60 * 1000)}"
  by (simp add: findMissingProperties_def Let_def)

lemma identifyMissingProperties_eq:
  "identifyMissingProperties now h s =
     s\<lparr>missing_queue := rev (filter (\<lambda>j. \<not> isVerifiedInactive j s)
                               (findMissingProperties now h s)) @ missing_queue s\<rparr>"
  by (simp add: identifyMissingProperties_def pushToMissingQueue_eq Let_def)

text \<open>
  Claim C6. Last-Seen marks are readings of the clock in milliseconds since 1970, so none
  of them is 0. Then, for every threshold, an identifier of the Discovery Set is selected
  by the sweep exactly when it has no Last-Seen mark or its mark is strictly before now
  minus the threshold; nothing outside the Discovery Set is selected; the selected
  identifiers that are not verified inactive are put on the missing lane and the others
  are not. A mark of now minus 25 hours is selected under a threshold of 24 hours, a
  mark of now minus 1 hour is not.
\<close>

theorem sweep_selects_stale:
  assumes clock: "0 \<notin> ran (last_seen s)"
  shows "(\<forall>i \<in> set (all_ids s).
            (i \<in> set (findMissingProperties now h s)) =
            (getLastSeen i s = None
             \<or> (\<exists>t. getLastSeen i s = Some t \<and> t < now - h * 60 * 60 * 1000)))
       \<and> set (findMissingProperties now h s) \<subseteq> set (all_ids s)
       \<and> missing_queue (identifyMissingProperties now h s) =
           rev (filter (\<lambda>j. \<not> isVerifiedInactive j s) (findMissingProperties now h s))
             @ missing_queue s
       \<and> (\<forall>i \<in> set (all_ids s). getLastSeen i s = Some (now - 25 * 60 * 60 * 1000) \<longrightarrow>
             i \<in> set (findMissingProperties now 24 s))
       \<and> (\<forall>i. getLastSeen i s = Some (now - 1 * 60 * 60 * 1000) \<longrightarrow>
             i \<notin> set (findMissingProperties now 24 s))"
proof -
  have nz: "\<And>i t. last_seen s i = Some t \<Longrightarrow> t \<noteq> 0"
    using clock by (auto simp: ran_def)
  have sel: "\<And>i. not_seen_recently (getLastSeen i s) c =
     (getLastSeen i s = None \<or> (\<exists>t. getLastSeen i s = Some t \<and> t < c))" for c
    using nz by (auto simp: not_seen_recently_def getLastSeen_def split: option.splits)
  show ?thesis
    by (simp add: findMissingProperties_set sel identifyMissingProperties_eq)
qed

theorem sweep_selects_stale_witness:
  "0 \<notin> ran (last_seen swept_store)
   \<and> findMissingProperties 1700000000000 24 swept_store = [''A'', ''C'']
   \<and> missing_queue (identifyMissingProperties 1700000000000 24 swept_store) = [''A'']"
proof -
  have c: "0 \<notin> ran (last_seen swept_store)"
    by (simp add: swept_store_def empty_store_def)
  have f: "findMissingProperties 1700000000000 24 swept_store = [''A'', ''C'']"
    by (simp add: findMissingProperties_def not_seen_recently_def getLastSeen_def
          swept_store_def empty_store_def)
  have v: "filter (\<lambda>j. \<not> isVerifiedInactive j swept_store) [''A'', ''C''] = [''A'']"
    by (simp add: isVerifiedInactive_def sismember_def swept_store_def empty_store_def)
  have m: "missing_queue swept_store = []"
    by (simp add: swept_store_def empty_store_def)
  from sweep_selects_stale [OF c, of 1700000000000 24]
  have "missing_queue (identifyMissingProperties 1700000000000 24 swept_store) =
           rev (filter (\<lambda>j. \<not> isVerifiedInactive j swept_store)
                 (findMissingProperties 1700000000000 24 swept_store))
             @ missing_queue swept_store"
    by blast
  then have "missing_queue (identifyMissingProperties 1700000000000 24 swept_store) = [''A'']"
    by (simp only: f v m rev.simps append.simps)
  with c f show ?thesis by blast
qed

section \<open>The terminal classifications\<close>

text \<open>
  Claim C10, as stated, fails: the store does not keep the Processed, Failed and
  Verified-Inactive sets pairwise disjoint. \<^verbatim>\<open>markProcessed\<close> and \<^verbatim>\<open>markFailed\<close> only add
  to their own set, and \<^verbatim>\<open>markVerifiedInactive\<close> leaves the Failed set alone. From the
  empty store, marking one identifier processed and then failed puts it in both sets; an
  identifier that ran out of retries and is then verified inactive is in Failed and in
  Verified-Inactive.
\<close>

theorem classes_not_kept_disjoint:
  "disjoint_classes empty_store
   \<and> \<not> disjoint_classes
         (run [MarkProcessed ''A'', MarkFailed ''A'' (Some ''Not found'')] empty_store)
   \<and> \<not> disjoint_classes
         (run [RequeueWithRetry ''A'' 0, MarkVerifiedInactive ''A''] empty_store)"
  by (simp add: disjoint_classes_def run_def empty_store_def markProcessed_def markFailed_def
        requeueWithRetry_def incrementRetry_def hincrby_def markVerifiedInactive_def
        sadd_def srem_def Let_def)

text \<open>
  Claim C10, amended. \<^verbatim>\<open>markVerifiedInactive\<close> adds the identifier to the
  Verified-Inactive set and removes it from the Processed set, so that it is verified
  inactive and no longer processed; it leaves the Failed set as it is; and when Processed
  and Verified-Inactive were disjoint before the call they are disjoint after it.
\<close>

theorem markVerifiedInactive_moves:
  "set (verified_inactive (markVerifiedInactive i s)) = insert i (set (verified_inactive s))
   \<and> set (processed (markVerifiedInactive i s)) = set (processed s) - {i}
   \<and> isVerifiedInactive i (markVerifiedInactive i s)
   \<and> \<not> isProcessed i (markVerifiedInactive i s)
   \<and> failed (markVerifiedInactive i s) = failed s
   \<and> (set (processed s) \<inter> set (verified_inactive s) = {} \<longrightarrow>
        set (processed (markVerifiedInactive i s))
          \<inter> set (verified_inactive (markVerifiedInactive i s)) = {})"
  by (auto simp: markVerifiedInactive_def isVerifiedInactive_def isProcessed_def sismember_def
        sadd_set srem_set)

theorem markVerifiedInactive_moves_witness:
  "set (processed (markProcessed ''A'' empty_store))
     \<inter> set (verified_inactive (markProcessed ''A'' empty_store)) = {}
   \<and> isProcessed ''A'' (markProcessed ''A'' empty_store)
   \<and> set (processed (markVerifiedInactive ''A'' (markProcessed ''A'' empty_store)))
       \<inter> set (verified_inactive (markVerifiedInactive ''A'' (markProcessed ''A'' empty_store)))
       = {}
   \<and> isVerifiedInactive ''A'' (markVerifiedInactive ''A'' (markProcessed ''A'' empty_store))"
  using markVerifiedInactive_moves [of "''A''" "markProcessed ''A'' empty_store"]
  by (simp add: markProcessed_def empty_store_def sadd_def isProcessed_def sismember_def)

section \<open>Snapshots and change detection\<close>

lemma sort_in_place_arr_or: "sort (arr_or (sort_in_place a) []) = sort (arr_or a [])"
  by (cases a) (simp_all add: arr_or_def sort_in_place_def sorted_sort_id)

lemma dataString_sorted:
  "dataString (p\<lparr>amenities := sort_in_place (amenities p),
                 installations := sort_in_place (installations p)\<rparr>) = dataString p"
  by (simp add: dataString_def importantData_def sort_in_place_arr_or)

lemma checksum_sorted:
  "fst (calculatePropertyChecksum (snd (calculatePropertyChecksum p)))
     = fst (calculatePropertyChecksum p)"
  by (simp add: calculatePropertyChecksum_def dataString_sorted)

lemma stored_checksum:
  "getPropertySnapshot i (fst (storePropertySnapshot now i p s)) =
     Some \<lparr>checksum = fst (calculatePropertyChecksum p),
           snap_price = num_or (rent p) (num_or (salePrice p) (num_or (price p) 0)),
           snap_status = str_or (visitStatus p) (str_or (status p) ''unknown''),
           updated_at = now\<rparr>"
  by (simp add: storePropertySnapshot_def getPropertySnapshot_def calculatePropertyChecksum_def
        Let_def)

lemma hasPropertyChanged_after_store:
  "fst (hasPropertyChanged i q (fst (storePropertySnapshot now i p s))) =
     (fst (calculatePropertyChecksum p) \<noteq> fst (calculatePropertyChecksum q))"
  by (simp add: hasPropertyChanged_def stored_checksum split: prod.splits)

text \<open>
  Claim C2. An identifier without a stored snapshot is reported as changed, whatever the
  listing. After \<^verbatim>\<open>storePropertySnapshot\<close> for an identifier and a listing,
  \<^verbatim>\<open>hasPropertyChanged\<close> for the same identifier and the same listing is false: both for
  the listing as it was handed in and for the listing as the call left it, with its
  amenity and feature arrays sorted in place.
\<close>

theorem unseen_changed_stored_unchanged:
  "(getPropertySnapshot i s = None \<longrightarrow> fst (hasPropertyChanged i p s))
   \<and> \<not> fst (hasPropertyChanged i p (fst (storePropertySnapshot now i p s)))
   \<and> \<not> fst (hasPropertyChanged i (snd (storePropertySnapshot now i p s))
              (fst (storePropertySnapshot now i p s)))"
proof -
  have a: "getPropertySnapshot i s = None \<longrightarrow> fst (hasPropertyChanged i p s)"
    by (simp add: hasPropertyChanged_def)
  have m: "snd (storePropertySnapshot now i p s) = snd (calculatePropertyChecksum p)"
    by (simp add: storePropertySnapshot_def Let_def split: prod.splits)
  show ?thesis
    using a by (simp add: hasPropertyChanged_after_store m checksum_sorted)
qed

theorem unseen_changed_stored_unchanged_witness:
  "getPropertySnapshot ''A'' empty_store = None
   \<and> fst (hasPropertyChanged ''A'' (listing_of ''A'') empty_store)
   \<and> \<not> fst (hasPropertyChanged ''A'' (listing_of ''A'')
            (fst (storePropertySnapshot 5 ''A'' (listing_of ''A'') empty_store)))"
proof -
  have n: "getPropertySnapshot ''A'' empty_store = None"
    by (simp add: getPropertySnapshot_def empty_store_def)
  show ?thesis
    using unseen_changed_stored_unchanged [of "''A''" empty_store "listing_of ''A''" 5] n
    by simp
qed

section \<open>The fingerprint\<close>

subsection \<open>Printing a number loses nothing\<close>

lemma digit_eq_iff: "digit a = digit b \<longleftrightarrow> a mod 10 = b mod 10"
proof -
  have d: "distinct ''0123456789''" by simp
  have la: "nat (a mod 10) < length ''0123456789''" by simp
  have lb: "nat (b mod 10) < length ''0123456789''" by simp
  have "digit a = digit b \<longleftrightarrow> nat (a mod 10) = nat (b mod 10)"
    unfolding digit_def using nth_eq_iff_index_eq [OF d la lb] .
  also have "\<dots> \<longleftrightarrow> a mod 10 = b mod 10"
    by (rule eq_nat_nat_iff) simp_all
  finally show ?thesis .
qed

lemma digit_not_minus: "digit a \<noteq> CHR ''-''"
proof -
  have "digit a \<in> set ''0123456789''"
    unfolding digit_def by (rule nth_mem) simp
  then show ?thesis by auto
qed

lemma digits_nonempty: "digits n \<noteq> []"
  by (subst digits.simps) simp

lemma digits_last: "last (digits n) = digit n"
  by (subst digits.simps) simp

lemma digits_butlast: "10 \<le> n \<Longrightarrow> butlast (digits n) = digits (n div 10)"
  by (subst digits.simps) simp

lemma digits_small: "n < 10 \<Longrightarrow> digits n = [digit n]"
  by (subst digits.simps) simp

lemma digits_hd_not_minus: "hd (digits n) \<noteq> CHR ''-''"
proof (induction n rule: digits.induct)
  case (1 n)
  show ?case
  proof (cases "n < 10")
    case True
    then show ?thesis by (simp add: digits_small digit_not_minus)
  next
    case False
    then have "digits n = digits (n div 10) @ [digit n]" by (subst digits.simps) simp
    then show ?thesis using 1 False by (simp add: digits_nonempty)
  qed
qed

lemma digits_inj: "0 \<le> a \<Longrightarrow> 0 \<le> b \<Longrightarrow> digits a = digits b \<Longrightarrow> a = b"
proof (induction a arbitrary: b rule: digits.induct)
  case (1 a)
  have last_eq: "a mod 10 = b mod 10"
    using 1 digits_last [of a] digits_last [of b] by (simp add: digit_eq_iff)
  show ?case
  proof (cases "a < 10")
    case True
    then have "digits b = [digit a]" using 1 by (simp add: digits_small)
    then have "length (digits b) = 1" by simp
    then have "b < 10"
      using digits_butlast [of b] digits_nonempty [of "b div 10"]
      by (cases "b < 10") (auto dest!: arg_cong [where f = length])
    with True last_eq 1 show ?thesis by simp
  next
    case False
    have "\<not> b < 10"
    proof
      assume "b < 10"
      then have "digits a = [digit b]" using 1 by (simp add: digits_small)
      then have "length (digits a) = 1" by simp
      then show False
        using False digits_butlast [of a] digits_nonempty [of "a div 10"]
        by (auto dest!: arg_cong [where f = length])
    qed
    then have "digits (a div 10) = digits (b div 10)"
      using False 1 digits_butlast [of a] digits_butlast [of b] by simp
    then have "a div 10 = b div 10" using 1 False by simp
    with last_eq show ?thesis by (metis mult_div_mod_eq)
  qed
qed

lemma toString_inj: "toString a = toString b \<Longrightarrow> a = b"
proof -
  assume eq: "toString a = toString b"
  have neg: "hd (toString x) = CHR ''-'' \<longleftrightarrow> x < 0" for x
    by (simp add: toString_def digits_hd_not_minus)
  from eq have s: "a < 0 \<longleftrightarrow> b < 0" using neg [of a] neg [of b] by simp
  show ?thesis
  proof (cases "a < 0")
    case True
    with s eq have "digits (- a) = digits (- b)" by (simp add: toString_def)
    with True s have "- a = - b" by (intro digits_inj) simp_all
    then show ?thesis by simp
  next
    case False
    with s eq have "digits a = digits b" by (simp add: toString_def)
    with False s show ?thesis by (intro digits_inj) simp_all
  qed
qed

subsection \<open>The rolling hash\<close>

lemma hashString_eq_iff: "hashString x = hashString y \<longleftrightarrow> hash32 x = hash32 y"
proof
  assume "hashString x = hashString y"
  then have "sint (hash32 x) = sint (hash32 y)"
    unfolding hashString_def by (rule toString_inj)
  then show "hash32 x = hash32 y" by (rule signed_word_eqI)
next
  assume "hash32 x = hash32 y"
  then show "hashString x = hashString y" by (simp add: hashString_def)
qed

lemma hash_step_eq: "hash_step h c = 31 * h + of_char c"
  by (simp add: hash_step_def push_bit_eq_mult)

lemma foldl_hash_step:
  "foldl hash_step h str = h * 31 ^ length str + foldl hash_step 0 str"
proof (induction str arbitrary: h)
  case Nil
  then show ?case by simp
next
  case (Cons c str)
  define tl_hash where "tl_hash = foldl hash_step 0 str"
  have a: "foldl hash_step h (c # str) = (31 * h + of_char c) * 31 ^ length str + tl_hash"
    using Cons [of "hash_step h c"] by (simp only: foldl_Cons hash_step_eq [of h c] tl_hash_def)
  have b: "foldl hash_step 0 (c # str) = (31 * 0 + of_char c) * 31 ^ length str + tl_hash"
    using Cons [of "hash_step 0 c"] by (simp only: foldl_Cons hash_step_eq [of 0 c] tl_hash_def)
  show ?case unfolding a b by (simp add: algebra_simps)
qed

lemma odd_power_cancel: "x * 31 ^ n = (0::32 word) \<Longrightarrow> x = 0"
proof (induction n arbitrary: x)
  case 0
  then show ?case by simp
next
  case (Suc n)
  then have "(x * 31) * 31 ^ n = 0" by (simp add: mult.assoc)
  then have "x * 31 = 0" by (rule Suc.IH)
  then have z: "x * (31 * 3186588639) = 0" by (simp only: mult.assoc [symmetric] mult_zero_left)
  have inv: "(31 * 3186588639 :: 32 word) = 1" by simp
  have "x = x * (31 * 3186588639)" by (simp only: inv mult_1_right)
  also have "\<dots> = 0" by (fact z)
  finally show ?case .
qed

lemma of_char_word_inj: "(of_char c :: 32 word) = of_char d \<Longrightarrow> c = d"
proof -
  assume eq: "(of_char c :: 32 word) = of_char d"
  have small: "(of_char x :: nat) < 2 ^ 32" for x
  proof -
    have "(of_char x :: nat) mod 256 < 256" by simp
    then have "(of_char x :: nat) < 256" by simp
    then show ?thesis by (rule less_trans) simp
  qed
  have u: "unat (of_char x :: 32 word) = of_char x" for x
  proof -
    have "unat (of_nat (of_char x) :: 32 word) = of_char x"
      using small [of x] by (simp add: unat_of_nat)
    then show ?thesis by (simp add: of_nat_of_char)
  qed
  from eq have "unat (of_char c :: 32 word) = unat (of_char d :: 32 word)" by simp
  then have "(of_char c :: nat) = of_char d" by (simp only: u)
  then show ?thesis by simp
qed

lemma hash32_one_unit:
  assumes "c \<noteq> d"
  shows "hash32 (xs @ c # ys) \<noteq> hash32 (xs @ d # ys)"
proof
  assume eq: "hash32 (xs @ c # ys) = hash32 (xs @ d # ys)"
  have e: "hash32 (xs @ x # ys) =
             (31 * hash32 xs + of_char x) * 31 ^ length ys + foldl hash_step 0 ys" for x
    unfolding hash32_def foldl_append foldl_Cons
    by (subst foldl_hash_step) (simp only: hash_step_eq [of "foldl hash_step 0 xs" x])
  from eq have "(31 * hash32 xs + of_char c) * 31 ^ length ys
                  = (31 * hash32 xs + of_char d) * 31 ^ length ys"
    unfolding e by simp
  then have "(of_char c - of_char d) * 31 ^ length ys = (0::32 word)"
    by (simp add: algebra_simps)
  then have "(of_char c :: 32 word) - of_char d = 0" by (rule odd_power_cancel)
  then have "(of_char c :: 32 word) = of_char d" by simp
  then have "c = d" by (rule of_char_word_inj)
  with assms show False by simp
qed

lemma hash32_update:
  assumes "k < length str" and "d \<noteq> str ! k"
  shows "hash32 (str[k := d]) \<noteq> hash32 str"
proof -
  have a: "str[k := d] = take k str @ d # drop (Suc k) str"
    using assms(1) by (rule upd_conv_take_nth_drop)
  have b: "str = take k str @ str ! k # drop (Suc k) str"
    using assms(1) by (rule id_take_nth_drop)
  have "hash32 (take k str @ d # drop (Suc k) str)
          \<noteq> hash32 (take k str @ str ! k # drop (Suc k) str)"
    using assms(2) by (rule hash32_one_unit)
  then show ?thesis using a b by simp
qed

lemma sort_mset_cong: "mset xs = mset ys \<Longrightarrow> sort xs = sort (ys :: string list)"
  by (rule properties_for_sort) simp_all

lemma checksum_eq_iff:
  "fst (calculatePropertyChecksum p) = fst (calculatePropertyChecksum q)
     \<longleftrightarrow> hash32 (dataString p) = hash32 (dataString q)"
  by (simp add: calculatePropertyChecksum_def hashString_eq_iff)

lemma dataString_permuted:
  assumes "mset (arr_or a []) = mset (arr_or (amenities p) [])"
    and "mset (arr_or f []) = mset (arr_or (installations p) [])"
  shows "dataString (p\<lparr>amenities := a, installations := f\<rparr>) = dataString p"
  using sort_mset_cong [OF assms(1)] sort_mset_cong [OF assms(2)]
  by (simp add: dataString_def importantData_def)

subsection \<open>The serialization loses nothing\<close>

text \<open>
  A printed number is made of digits and a minus sign, a quoted string ends at its first
  unescaped quotation mark, and the keys of the canonical record are fixed: so the
  serialization can be read back, member by member.
\<close>

lemma sep_cancel:
  assumes "\<forall>x\<in>set xs. P x" and "\<forall>x\<in>set ys. P x" and "\<not> P c" and "\<not> P d"
    and "xs @ c # r = ys @ d # r'"
  shows "xs = ys \<and> c # r = d # r'"
proof -
  have a: "takeWhile P (xs @ c # r) = xs"
    using assms(1,3) by simp
  have b: "takeWhile P (ys @ d # r') = ys"
    using assms(2,4) by simp
  from a b assms(5) have "xs = ys" by simp
  with assms(5) show ?thesis by simp
qed

lemma digit_num_char: "num_char (digit d)"
proof -
  have "digit d \<in> set ''0123456789''"
    unfolding digit_def by (rule nth_mem) simp
  then show ?thesis by (auto simp: num_char_def)
qed

lemma digits_num_chars: "\<forall>c\<in>set (digits n). num_char c"
proof (induction n rule: digits.induct)
  case (1 n)
  show ?case
  proof (cases "n < 10")
    case True
    then show ?thesis by (simp add: digits_small digit_num_char)
  next
    case False
    then have "digits n = digits (n div 10) @ [digit n]" by (subst digits.simps) simp
    then show ?thesis using 1 False by (simp add: digit_num_char)
  qed
qed

lemma toString_num_chars: "\<forall>c\<in>set (toString n). num_char c"
  using digits_num_chars by (simp add: toString_def num_char_def)

lemma toString_nonempty: "toString n \<noteq> []"
  by (simp add: toString_def digits_nonempty)

lemma hex_digit_eq_iff: "hex_digit a = hex_digit b \<longleftrightarrow> a mod 16 = b mod 16"
proof -
  have d: "distinct ''0123456789abcdef''" by simp
  have la: "a mod 16 < length ''0123456789abcdef''" by simp
  have lb: "b mod 16 < length ''0123456789abcdef''" by simp
  show ?thesis
    unfolding hex_digit_def using nth_eq_iff_index_eq [OF d la lb] .
qed

lemma small_nat_eq:
  fixes a b :: nat
  assumes "a < 32" and "b < 32" and "a div 16 mod 16 = b div 16 mod 16"
    and "a mod 16 = b mod 16"
  shows "a = b"
proof -
  have "a < 16 * 16" using assms(1) by linarith
  then have "a div 16 < 16" by (rule less_mult_imp_div_less)
  then have a: "a div 16 mod 16 = a div 16" by (rule mod_less)
  have "b < 16 * 16" using assms(2) by linarith
  then have "b div 16 < 16" by (rule less_mult_imp_div_less)
  then have b: "b div 16 mod 16 = b div 16" by (rule mod_less)
  from assms(3) have d: "a div 16 = b div 16" unfolding a b .
  have "a = 16 * (a div 16) + a mod 16" by (simp only: mult_div_mod_eq)
  also have "\<dots> = 16 * (b div 16) + b mod 16" by (simp only: d assms(4))
  also have "\<dots> = b" by (simp only: mult_div_mod_eq)
  finally show ?thesis .
qed

lemma small_char_eq:
  assumes "(of_char c :: nat) < 32" and "(of_char c' :: nat) < 32"
    and "(of_char c :: nat) div 16 mod 16 = of_char c' div 16 mod 16"
    and "(of_char c :: nat) mod 16 = of_char c' mod 16"
  shows "c = c'"
proof -
  have "(of_char c :: nat) = of_char c'" using assms by (rule small_nat_eq)
  then show ?thesis by (simp only: of_char_eq_iff)
qed

lemma quote_char_cases:
  "(quote_char c = [c] \<and> c \<noteq> CHR 0x5C \<and> c \<noteq> CHR 0x22)
   \<or> (c = CHR 0x22 \<and> quote_char c = [CHR 0x5C, CHR 0x22])
   \<or> (c = CHR 0x5C \<and> quote_char c = [CHR 0x5C, CHR 0x5C])
   \<or> (c = CHR 0x08 \<and> quote_char c = [CHR 0x5C, CHR ''b''])
   \<or> (c = CHR 0x0C \<and> quote_char c = [CHR 0x5C, CHR ''f''])
   \<or> (c = CHR 0x0A \<and> quote_char c = [CHR 0x5C, CHR ''n''])
   \<or> (c = CHR 0x0D \<and> quote_char c = [CHR 0x5C, CHR ''r''])
   \<or> (c = CHR 0x09 \<and> quote_char c = [CHR 0x5C, CHR ''t''])
   \<or> ((of_char c :: nat) < 32
       \<and> quote_char c = [CHR 0x5C, CHR ''u'', CHR ''0'', CHR ''0'',
                          hex_digit (of_char c div 16), hex_digit (of_char c)])"
  by (simp add: quote_char_def)

lemma quote_char_prefix:
  assumes "quote_char c @ X = quote_char c' @ X'"
  shows "c = c' \<and> X = X'"
  using quote_char_cases [of c] quote_char_cases [of c'] assms
  by (elim disjE conjE) (auto simp: hex_digit_eq_iff dest: small_char_eq)

lemma quote_char_hd: "\<exists>x xs. quote_char c = x # xs \<and> x \<noteq> CHR 0x22"
  by (auto simp: quote_char_def)

lemma quote_body_inj:
  "concat (map quote_char s) @ CHR 0x22 # r = concat (map quote_char s') @ CHR 0x22 # r'
     \<Longrightarrow> s = s' \<and> r = r'"
proof (induction s arbitrary: s')
  case Nil
  show ?case
  proof (cases s')
    case Nil
    with Nil.prems show ?thesis by simp
  next
    case (Cons c t)
    obtain x xs where "quote_char c = x # xs" "x \<noteq> CHR 0x22"
      using quote_char_hd by blast
    with Nil.prems Cons show ?thesis by simp
  qed
next
  case (Cons c t)
  show ?case
  proof (cases s')
    case Nil
    obtain x xs where "quote_char c = x # xs" "x \<noteq> CHR 0x22"
      using quote_char_hd by blast
    with Cons.prems Nil show ?thesis by simp
  next
    case (Cons c' t')
    from Cons.prems Cons
    have "quote_char c @ (concat (map quote_char t) @ CHR 0x22 # r)
            = quote_char c' @ (concat (map quote_char t') @ CHR 0x22 # r')"
      by simp
    then have "c = c'" and
      "concat (map quote_char t) @ CHR 0x22 # r = concat (map quote_char t') @ CHR 0x22 # r'"
      by (auto dest: quote_char_prefix)
    with Cons.IH [of t'] Cons show ?thesis by simp
  qed
qed

lemma quote_inj: "quote s @ r = quote s' @ r' \<Longrightarrow> s = s' \<and> r = r'"
  using quote_body_inj [of s r s' r'] by (simp add: quote_def)

lemma quote_not_num: "quote s = x # xs \<Longrightarrow> \<not> num_char x"
  by (auto simp: quote_def num_char_def)

lemma value_inj:
  assumes "\<not> num_char c" and "\<not> num_char d"
    and "stringify_value v @ c # r = stringify_value v' @ d # r'"
  shows "v = v' \<and> c # r = d # r'"
proof (cases v)
  case (JNumber n)
  show ?thesis
  proof (cases v')
    case (JNumber n')
    from assms(3) have "toString n @ c # r = toString n' @ d # r'"
      using \<open>v = JNumber n\<close> JNumber by simp
    from sep_cancel [OF toString_num_chars toString_num_chars assms(1,2) this]
    show ?thesis using \<open>v = JNumber n\<close> JNumber by (auto dest: toString_inj)
  next
    case (JString x')
    obtain y ys where t: "toString n = y # ys" using toString_nonempty [of n] by (cases "toString n") auto
    then have "num_char y" using toString_num_chars [of n] by simp
    moreover have "quote x' = CHR 0x22 # concat (map quote_char x') @ [CHR 0x22]"
      by (simp add: quote_def)
    ultimately show ?thesis
      using assms(3) \<open>v = JNumber n\<close> JString t by (auto simp: num_char_def)
  qed
next
  case (JString x)
  show ?thesis
  proof (cases v')
    case (JNumber n')
    obtain y ys where t: "toString n' = y # ys"
      using toString_nonempty [of n'] by (cases "toString n'") auto
    then have "num_char y" using toString_num_chars [of n'] by simp
    moreover have "quote x = CHR 0x22 # concat (map quote_char x) @ [CHR 0x22]"
      by (simp add: quote_def)
    ultimately show ?thesis
      using assms(3) \<open>v = JString x\<close> JNumber t by (auto simp: num_char_def)
  next
    case (JString x')
    from assms(3) have "quote x @ c # r = quote x' @ d # r'"
      using \<open>v = JString x\<close> JString by simp
    then show ?thesis using \<open>v = JString x\<close> JString by (auto dest: quote_inj)
  qed
qed

lemma member_inj:
  assumes "\<not> num_char c" and "\<not> num_char d"
    and "stringify_member (k, v) @ c # r = stringify_member (k, v') @ d # r'"
  shows "v = v' \<and> c # r = d # r'"
proof -
  from assms(3) have "stringify_value v @ c # r = stringify_value v' @ d # r'"
    by (simp add: stringify_member_def)
  with assms(1,2) show ?thesis by (rule value_inj)
qed

lemma members_inj:
  "map fst ms = map fst ms' \<Longrightarrow>
   join '','' (map stringify_member ms) @ CHR ''}'' # r
     = join '','' (map stringify_member ms') @ CHR ''}'' # r' \<Longrightarrow> ms = ms'"
proof (induction ms arbitrary: ms')
  case Nil
  then show ?case by simp
next
  case (Cons m ms)
  then obtain m' ms1 where ms': "ms' = m' # ms1" by (cases ms') auto
  with Cons.prems have k: "fst m = fst m'" and ks: "map fst ms = map fst ms1" by simp_all
  obtain kk v where m: "m = (kk, v)" by (cases m)
  with k obtain v' where m': "m' = (kk, v')" by (cases m') auto
  have nc: "\<not> num_char CHR '',''" "\<not> num_char CHR ''}''" by (simp_all add: num_char_def)
  show ?case
  proof (cases ms)
    case Nil
    with ks have e: "ms1 = []" by simp
    from Cons.prems(2) have "stringify_member (kk, v) @ CHR ''}'' # r
        = stringify_member (kk, v') @ CHR ''}'' # r'"
      by (simp add: ms' m m' Nil e)
    from member_inj [OF nc(2) nc(2) this] show ?thesis by (simp add: ms' m m' Nil e)
  next
    case (Cons m2 rest)
    with ks obtain m2' rest' where e: "ms1 = m2' # rest'" by (cases ms1) auto
    from Cons.prems(2) have "stringify_member (kk, v)
          @ CHR '','' # (join '','' (map stringify_member ms) @ CHR ''}'' # r)
        = stringify_member (kk, v')
          @ CHR '','' # (join '','' (map stringify_member ms1) @ CHR ''}'' # r')"
      by (simp add: ms' m m' Cons e)
    from member_inj [OF nc(1) nc(1) this]
    have "v = v'" and "join '','' (map stringify_member ms) @ CHR ''}'' # r
        = join '','' (map stringify_member ms1) @ CHR ''}'' # r'"
      by simp_all
    with Cons.IH [OF ks] show ?thesis by (simp add: ms' m m')
  qed
qed

lemma stringify_inj:
  "map fst ms = map fst ms' \<Longrightarrow> stringify ms = stringify ms' \<Longrightarrow> ms = ms'"
  using members_inj [of ms ms' "[]" "[]"] by (simp add: stringify_def)

lemma dataString_eq_iff: "dataString q = dataString p \<longleftrightarrow> importantData q = importantData p"
proof
  assume "dataString q = dataString p"
  moreover have "map fst (importantData q) = map fst (importantData p)"
    by (simp add: importantData_def)
  ultimately show "importantData q = importantData p"
    unfolding dataString_def by (intro stringify_inj)
next
  assume "importantData q = importantData p"
  then show "dataString q = dataString p" by (simp add: dataString_def)
qed

subsection \<open>Joined lists\<close>

lemma join_Cons: "join sep (x # ys) = x @ concat (map (\<lambda>a. sep @ a) ys)"
  by (induction ys arbitrary: x) simp_all

lemma join_append_Cons:
  "join sep (xs @ x # ys)
     = concat (map (\<lambda>a. a @ sep) xs) @ x @ concat (map (\<lambda>a. sep @ a) ys)"
proof (induction xs)
  case Nil
  show ?case by (simp add: join_Cons)
next
  case (Cons z zs)
  have "join sep ((z # zs) @ x # ys) = z @ sep @ join sep (zs @ x # ys)"
    by (cases zs) simp_all
  then show ?case using Cons by simp
qed

lemma join_replace: "join sep (xs @ x # ys) = join sep (xs @ y # ys) \<Longrightarrow> x = y"
  by (simp add: join_append_Cons)

lemma join_free_inj:
  assumes "\<forall>a\<in>set xs. a \<noteq> [] \<and> c \<notin> set a" and "\<forall>a\<in>set ys. a \<noteq> [] \<and> c \<notin> set a"
    and "join [c] xs = join [c] ys"
  shows "xs = ys"
  using assms
proof (induction xs arbitrary: ys)
  case Nil
  then show ?case by (cases ys) (auto simp: join_Cons)
next
  case (Cons x xs)
  then obtain y ys1 where ys: "ys = y # ys1" by (cases ys) (auto simp: join_Cons)
  have fx: "\<forall>z\<in>set x. z \<noteq> c" and fy: "\<forall>z\<in>set y. z \<noteq> c"
    using Cons.prems(1,2) ys by auto
  show ?case
  proof (cases xs)
    case Nil
    show ?thesis
    proof (cases ys1)
      case Nil
      with Cons.prems(3) ys \<open>xs = []\<close> show ?thesis by simp
    next
      case (Cons y2 t)
      with Cons.prems(3) ys \<open>xs = []\<close> have "x = y @ c # join [c] (y2 # t)" by simp
      then have "c \<in> set x" by simp
      with fx show ?thesis by blast
    qed
  next
    case (Cons x2 t)
    show ?thesis
    proof (cases ys1)
      case Nil
      with Cons.prems(3) ys \<open>xs = x2 # t\<close> have "y = x @ c # join [c] (x2 # t)" by simp
      then have "c \<in> set y" by simp
      with fy show ?thesis by blast
    next
      case (Cons y2 t')
      with Cons.prems(3) ys \<open>xs = x2 # t\<close>
      have "x @ c # join [c] xs = y @ c # join [c] ys1" by simp
      from sep_cancel [where P = "\<lambda>z. z \<noteq> c", OF fx fy _ _ this]
      have "x = y" and "join [c] xs = join [c] ys1" by simp_all
      moreover have "xs = ys1"
        using Cons.prems(1,2) ys \<open>join [c] xs = join [c] ys1\<close> by (intro Cons.IH) simp_all
      ultimately show ?thesis using ys by simp
    qed
  qed
qed

lemma sorted_join_differs:
  assumes "mset xs \<noteq> mset ys"
    and "\<forall>a\<in>set xs \<union> set ys. a \<noteq> [] \<and> CHR ''|'' \<notin> set a"
  shows "join ''|'' (sort xs) \<noteq> join ''|'' (sort (ys :: string list))"
proof
  assume "join ''|'' (sort xs) = join ''|'' (sort ys)"
  moreover have "\<forall>a\<in>set (sort xs). a \<noteq> [] \<and> CHR ''|'' \<notin> set a" using assms(2) by simp
  moreover have "\<forall>a\<in>set (sort ys). a \<noteq> [] \<and> CHR ''|'' \<notin> set a" using assms(2) by simp
  ultimately have "sort xs = sort ys" by (intro join_free_inj [where c = "CHR ''|''"])
  then have "mset (sort xs) = mset (sort ys)" by simp
  with assms(1) show False by simp
qed

lemma dataString_fields:
  "(dataString q = dataString p) =
     (num_or (rent q) (num_or (salePrice q) (num_or (price q) 0))
        = num_or (rent p) (num_or (salePrice p) (num_or (price p) 0))
      \<and> str_or (description q) [] = str_or (description p) []
      \<and> str_or (visitStatus q) (str_or (status q) ''unknown'')
          = str_or (visitStatus p) (str_or (status p) ''unknown'')
      \<and> join ''|'' (arr_or (imageList q) (arr_or (images q) []))
          = join ''|'' (arr_or (imageList p) (arr_or (images p) []))
      \<and> join ''|'' (sort (arr_or (amenities q) []))
          = join ''|'' (sort (arr_or (amenities p) []))
      \<and> join ''|'' (sort (arr_or (installations q) []))
          = join ''|'' (sort (arr_or (installations p) []))
      \<and> num_or (bedrooms q) 0 = num_or (bedrooms p) 0
      \<and> num_or (bathrooms q) 0 = num_or (bathrooms p) 0
      \<and> num_or (area q) 0 = num_or (area p) 0
      \<and> str_or (address q) [] = str_or (address p) []
      \<and> str_or (city q) [] = str_or (city p) [])"
  unfolding dataString_eq_iff by (simp add: importantData_def)

lemma tracked_change_reaches_dataString:
  assumes "num_or (rent q) (num_or (salePrice q) (num_or (price q) 0))
             \<noteq> num_or (rent p) (num_or (salePrice p) (num_or (price p) 0))
     \<or> str_or (visitStatus q) (str_or (status q) ''unknown'')
          \<noteq> str_or (visitStatus p) (str_or (status p) ''unknown'')
     \<or> (\<exists>xs x y ys. arr_or (imageList p) (arr_or (images p) []) = xs @ x # ys
            \<and> arr_or (imageList q) (arr_or (images q) []) = xs @ y # ys \<and> x \<noteq> y)
     \<or> (mset (arr_or (amenities q) []) \<noteq> mset (arr_or (amenities p) [])
          \<and> (\<forall>a\<in>set (arr_or (amenities q) []) \<union> set (arr_or (amenities p) []).
                a \<noteq> [] \<and> CHR ''|'' \<notin> set a))"
  shows "dataString q \<noteq> dataString p"
  using assms
proof (elim disjE exE conjE)
  assume "num_or (rent q) (num_or (salePrice q) (num_or (price q) 0))
             \<noteq> num_or (rent p) (num_or (salePrice p) (num_or (price p) 0))"
  then show ?thesis by (simp add: dataString_fields)
next
  assume "str_or (visitStatus q) (str_or (status q) ''unknown'')
          \<noteq> str_or (visitStatus p) (str_or (status p) ''unknown'')"
  then show ?thesis by (simp add: dataString_fields)
next
  fix xs x y ys
  assume a: "arr_or (imageList p) (arr_or (images p) []) = xs @ x # ys"
    "arr_or (imageList q) (arr_or (images q) []) = xs @ y # ys" "x \<noteq> y"
  have "join ''|'' (xs @ y # ys) \<noteq> join ''|'' (xs @ x # ys)"
    using a(3) join_replace [of "''|''" xs y ys x] by auto
  then show ?thesis by (simp add: dataString_fields a(1,2))
next
  assume "mset (arr_or (amenities q) []) \<noteq> mset (arr_or (amenities p) [])"
    "\<forall>a\<in>set (arr_or (amenities q) []) \<union> set (arr_or (amenities p) []).
                a \<noteq> [] \<and> CHR ''|'' \<notin> set a"
  then have "join ''|'' (sort (arr_or (amenities q) []))
               \<noteq> join ''|'' (sort (arr_or (amenities p) []))"
    by (rule sorted_join_differs)
  then show ?thesis by (simp add: dataString_fields)
qed

subsection \<open>What the fingerprint detects\<close>

text \<open>
  Claim C3, as stated, fails. The checksum is a 32-bit hash and two serializations can
  share it: a snapshot stored with status \<open>Aa\<close> does not flag the same listing with
  status \<open>BB\<close>. The image list enters the serialization in the order given, without
  sorting: a snapshot stored with the images \<open>2.jpg, 1.jpg\<close> flags the same listing with
  the images \<open>1.jpg, 2.jpg\<close>. And the amenities are joined with a bar that the names
  themselves may contain: replacing the amenity \<open>|~\<close> by \<open>~|\<close> next to the amenity
  \<open>|~|\<close> leaves the serialization, and so the verdict, as it was; so does adding an
  amenity with the empty name to an empty list.
\<close>

theorem fingerprint_misses:
  "\<not> fst (hasPropertyChanged ''A'' ((listing_of ''A'')\<lparr>status := Some ''BB''\<rparr>)
          (fst (storePropertySnapshot 5 ''A'' ((listing_of ''A'')\<lparr>status := Some ''Aa''\<rparr>)
                  empty_store)))
   \<and> fst (hasPropertyChanged ''A'' ((listing_of ''A'')\<lparr>imageList := Some [''1.jpg'', ''2.jpg'']\<rparr>)
          (fst (storePropertySnapshot 5 ''A''
                  ((listing_of ''A'')\<lparr>imageList := Some [''2.jpg'', ''1.jpg'']\<rparr>) empty_store)))
   \<and> \<not> fst (hasPropertyChanged ''A'' ((listing_of ''A'')\<lparr>amenities := Some [''|~|'', ''~|'']\<rparr>)
          (fst (storePropertySnapshot 5 ''A''
                  ((listing_of ''A'')\<lparr>amenities := Some [''|~|'', ''|~'']\<rparr>) empty_store)))
   \<and> \<not> fst (hasPropertyChanged ''A'' ((listing_of ''A'')\<lparr>amenities := Some [[]]\<rparr>)
          (fst (storePropertySnapshot 5 ''A''
                  ((listing_of ''A'')\<lparr>amenities := Some []\<rparr>) empty_store)))"
proof -
  have a: "fst (calculatePropertyChecksum ((listing_of ''A'')\<lparr>status := Some ''Aa''\<rparr>))
             = fst (calculatePropertyChecksum ((listing_of ''A'')\<lparr>status := Some ''BB''\<rparr>))"
    by code_simp
  have b: "fst (calculatePropertyChecksum ((listing_of ''A'')\<lparr>imageList := Some [''2.jpg'', ''1.jpg'']\<rparr>))
             \<noteq> fst (calculatePropertyChecksum ((listing_of ''A'')\<lparr>imageList := Some [''1.jpg'', ''2.jpg'']\<rparr>))"
    by code_simp
  have "dataString ((listing_of ''A'')\<lparr>amenities := Some [''|~|'', ''|~'']\<rparr>)
          = dataString ((listing_of ''A'')\<lparr>amenities := Some [''|~|'', ''~|'']\<rparr>)"
    by code_simp
  then have c: "fst (calculatePropertyChecksum ((listing_of ''A'')\<lparr>amenities := Some [''|~|'', ''|~'']\<rparr>))
          = fst (calculatePropertyChecksum ((listing_of ''A'')\<lparr>amenities := Some [''|~|'', ''~|'']\<rparr>))"
    by (simp add: calculatePropertyChecksum_def)
  have "dataString ((listing_of ''A'')\<lparr>amenities := Some []\<rparr>)
          = dataString ((listing_of ''A'')\<lparr>amenities := Some [[]]\<rparr>)"
    by (simp add: dataString_def importantData_def arr_or_def)
  then have e: "fst (calculatePropertyChecksum ((listing_of ''A'')\<lparr>amenities := Some []\<rparr>))
          = fst (calculatePropertyChecksum ((listing_of ''A'')\<lparr>amenities := Some [[]]\<rparr>))"
    by (simp add: calculatePropertyChecksum_def)
  show ?thesis
    unfolding hasPropertyChanged_after_store using a b c e by simp
qed

text \<open>
  Claim C3, amended. After a snapshot of a listing is stored, \<^verbatim>\<open>hasPropertyChanged\<close> is
  true for a listing exactly when the 32-bit hash of its canonical serialization differs
  from that of the stored one. Two listings have the same serialization exactly when they
  agree on the effective price, description, status, joined image list, joined sorted
  amenity list, joined sorted feature list, bedrooms, bathrooms, area, address and city.
  So a change of the effective price, of the effective status, of one element of the image
  list, or of the amenities (their names non-empty and free of the bar) changes the
  serialization, and is reported unless the two different serializations have the same
  hash. Reordering the amenity list or the feature list (a missing list counts as the
  empty one) is never reported. A change that replaces one code unit of the serialization
  by another is always reported.
\<close>

theorem fingerprint_detection:
  "fst (hasPropertyChanged i q (fst (storePropertySnapshot now i p s)))
     = (hash32 (dataString q) \<noteq> hash32 (dataString p))
   \<and> (dataString q = dataString p) =
       (num_or (rent q) (num_or (salePrice q) (num_or (price q) 0))
          = num_or (rent p) (num_or (salePrice p) (num_or (price p) 0))
        \<and> str_or (description q) [] = str_or (description p) []
        \<and> str_or (visitStatus q) (str_or (status q) ''unknown'')
            = str_or (visitStatus p) (str_or (status p) ''unknown'')
        \<and> join ''|'' (arr_or (imageList q) (arr_or (images q) []))
            = join ''|'' (arr_or (imageList p) (arr_or (images p) []))
        \<and> join ''|'' (sort (arr_or (amenities q) []))
            = join ''|'' (sort (arr_or (amenities p) []))
        \<and> join ''|'' (sort (arr_or (installations q) []))
            = join ''|'' (sort (arr_or (installations p) []))
        \<and> num_or (bedrooms q) 0 = num_or (bedrooms p) 0
        \<and> num_or (bathrooms q) 0 = num_or (bathrooms p) 0
        \<and> num_or (area q) 0 = num_or (area p) 0
        \<and> str_or (address q) [] = str_or (address p) []
        \<and> str_or (city q) [] = str_or (city p) [])
   \<and> (num_or (rent q) (num_or (salePrice q) (num_or (price q) 0))
             \<noteq> num_or (rent p) (num_or (salePrice p) (num_or (price p) 0))
        \<or> str_or (visitStatus q) (str_or (status q) ''unknown'')
             \<noteq> str_or (visitStatus p) (str_or (status p) ''unknown'')
        \<or> (\<exists>xs x y ys. arr_or (imageList p) (arr_or (images p) []) = xs @ x # ys
               \<and> arr_or (imageList q) (arr_or (images q) []) = xs @ y # ys \<and> x \<noteq> y)
        \<or> (mset (arr_or (amenities q) []) \<noteq> mset (arr_or (amenities p) [])
             \<and> (\<forall>a\<in>set (arr_or (amenities q) []) \<union> set (arr_or (amenities p) []).
                   a \<noteq> [] \<and> CHR ''|'' \<notin> set a)) \<longrightarrow>
      dataString q \<noteq> dataString p
      \<and> (fst (hasPropertyChanged i q (fst (storePropertySnapshot now i p s)))
          \<or> hash32 (dataString q) = hash32 (dataString p)))
   \<and> (mset (arr_or a []) = mset (arr_or (amenities p) [])
        \<and> mset (arr_or f []) = mset (arr_or (installations p) []) \<longrightarrow>
      \<not> fst (hasPropertyChanged i (p\<lparr>amenities := a, installations := f\<rparr>)
              (fst (storePropertySnapshot now i p s))))
   \<and> (k < length (dataString p) \<and> d \<noteq> dataString p ! k
        \<and> dataString q = (dataString p)[k := d] \<longrightarrow>
      fst (hasPropertyChanged i q (fst (storePropertySnapshot now i p s))))"
proof -
  have ch: "fst (hasPropertyChanged i r (fst (storePropertySnapshot now i p s)))
     = (hash32 (dataString r) \<noteq> hash32 (dataString p))" for r
    unfolding hasPropertyChanged_after_store checksum_eq_iff by auto
  have c1: "fst (hasPropertyChanged i q (fst (storePropertySnapshot now i p s)))
     = (hash32 (dataString q) \<noteq> hash32 (dataString p))"
    by (rule ch)
  note c2 = dataString_fields [of q p]
  have c3: "num_or (rent q) (num_or (salePrice q) (num_or (price q) 0))
             \<noteq> num_or (rent p) (num_or (salePrice p) (num_or (price p) 0))
        \<or> str_or (visitStatus q) (str_or (status q) ''unknown'')
             \<noteq> str_or (visitStatus p) (str_or (status p) ''unknown'')
        \<or> (\<exists>xs x y ys. arr_or (imageList p) (arr_or (images p) []) = xs @ x # ys
               \<and> arr_or (imageList q) (arr_or (images q) []) = xs @ y # ys \<and> x \<noteq> y)
        \<or> (mset (arr_or (amenities q) []) \<noteq> mset (arr_or (amenities p) [])
             \<and> (\<forall>a\<in>set (arr_or (amenities q) []) \<union> set (arr_or (amenities p) []).
                   a \<noteq> [] \<and> CHR ''|'' \<notin> set a)) \<longrightarrow>
      dataString q \<noteq> dataString p
      \<and> (fst (hasPropertyChanged i q (fst (storePropertySnapshot now i p s)))
          \<or> hash32 (dataString q) = hash32 (dataString p))"
    using tracked_change_reaches_dataString [of q p] c1 by blast
  have c4: "mset (arr_or a []) = mset (arr_or (amenities p) [])
        \<and> mset (arr_or f []) = mset (arr_or (installations p) []) \<longrightarrow>
      \<not> fst (hasPropertyChanged i (p\<lparr>amenities := a, installations := f\<rparr>)
              (fst (storePropertySnapshot now i p s)))"
    unfolding ch by (auto simp: dataString_permuted)
  have c5: "k < length (dataString p) \<and> d \<noteq> dataString p ! k
        \<and> dataString q = (dataString p)[k := d] \<longrightarrow>
      fst (hasPropertyChanged i q (fst (storePropertySnapshot now i p s)))"
    unfolding ch by (auto simp: hash32_update)
  from c1 c2 c3 c4 c5 show ?thesis by (intro conjI)
qed

theorem fingerprint_detection_witness:
  "num_or (rent (sample\<lparr>rent := Some 1500\<rparr>))
       (num_or (salePrice (sample\<lparr>rent := Some 1500\<rparr>))
          (num_or (price (sample\<lparr>rent := Some 1500\<rparr>)) 0))
     \<noteq> num_or (rent sample) (num_or (salePrice sample) (num_or (price sample) 0))
   \<and> dataString (sample\<lparr>rent := Some 1500\<rparr>) \<noteq> dataString sample
   \<and> fst (hasPropertyChanged ''A'' (sample\<lparr>rent := Some 1500\<rparr>)
              (fst (storePropertySnapshot 5 ''A'' sample empty_store)))
   \<and> arr_or (imageList sample_photos) (arr_or (images sample_photos) [])
       = [''1.jpg''] @ ''2.jpg'' # []
   \<and> arr_or (imageList (sample_photos\<lparr>imageList := Some [''1.jpg'', ''3.jpg'']\<rparr>))
         (arr_or (images (sample_photos\<lparr>imageList := Some [''1.jpg'', ''3.jpg'']\<rparr>)) [])
       = [''1.jpg''] @ ''3.jpg'' # []
   \<and> dataString (sample_photos\<lparr>imageList := Some [''1.jpg'', ''3.jpg'']\<rparr>)
       \<noteq> dataString sample_photos
   \<and> mset (arr_or (amenities (sample\<lparr>amenities := Some [''pool'', ''sauna'']\<rparr>)) [])
       \<noteq> mset (arr_or (amenities sample) [])
   \<and> dataString (sample\<lparr>amenities := Some [''pool'', ''sauna'']\<rparr>) \<noteq> dataString sample
   \<and> mset (arr_or (Some [''gym'', ''pool'']) []) = mset (arr_or (amenities sample) [])
   \<and> mset (arr_or None []) = mset (arr_or (installations sample) [])
   \<and> \<not> fst (hasPropertyChanged ''A'' (sample\<lparr>amenities := Some [''gym'', ''pool''], installations := None\<rparr>)
              (fst (storePropertySnapshot 5 ''A'' sample empty_store)))
   \<and> 39 < length (dataString sample) \<and> CHR ''b'' \<noteq> dataString sample ! 39
   \<and> dataString (sample\<lparr>status := Some ''Ab''\<rparr>) = (dataString sample)[39 := CHR ''b'']
   \<and> fst (hasPropertyChanged ''A'' (sample\<lparr>status := Some ''Ab''\<rparr>)
              (fst (storePropertySnapshot 5 ''A'' sample empty_store)))"
proof -
  let ?st = "fst (storePropertySnapshot 5 ''A'' sample empty_store)"
  have p1: "num_or (rent (sample\<lparr>rent := Some 1500\<rparr>))
       (num_or (salePrice (sample\<lparr>rent := Some 1500\<rparr>))
          (num_or (price (sample\<lparr>rent := Some 1500\<rparr>)) 0))
     \<noteq> num_or (rent sample) (num_or (salePrice sample) (num_or (price sample) 0))"
    by (simp add: num_or_def sample_def listing_of_def)
  note t1 = fingerprint_detection [where i = "''A''" and q = "sample\<lparr>rent := Some 1500\<rparr>"
      and now = 5 and p = sample and s = empty_store]
  from t1 p1 have p2: "dataString (sample\<lparr>rent := Some 1500\<rparr>) \<noteq> dataString sample"
    by blast
  have "hash32 (dataString (sample\<lparr>rent := Some 1500\<rparr>)) \<noteq> hash32 (dataString sample)"
    by code_simp
  with t1 have p3: "fst (hasPropertyChanged ''A'' (sample\<lparr>rent := Some 1500\<rparr>) ?st)"
    by blast
  have i1: "arr_or (imageList sample_photos) (arr_or (images sample_photos) [])
       = [''1.jpg''] @ ''2.jpg'' # []"
    by (simp add: arr_or_def sample_photos_def)
  have i2: "arr_or (imageList (sample_photos\<lparr>imageList := Some [''1.jpg'', ''3.jpg'']\<rparr>))
         (arr_or (images (sample_photos\<lparr>imageList := Some [''1.jpg'', ''3.jpg'']\<rparr>)) [])
       = [''1.jpg''] @ ''3.jpg'' # []"
    by (simp add: arr_or_def)
  have i3: "''2.jpg'' \<noteq> ''3.jpg''" by simp
  note t2 = fingerprint_detection [where i = "''A''"
      and q = "sample_photos\<lparr>imageList := Some [''1.jpg'', ''3.jpg'']\<rparr>"
      and now = 5 and p = sample_photos and s = empty_store]
  from t2 i1 i2 i3
  have i4: "dataString (sample_photos\<lparr>imageList := Some [''1.jpg'', ''3.jpg'']\<rparr>)
       \<noteq> dataString sample_photos"
    by blast
  have a1: "mset (arr_or (amenities (sample\<lparr>amenities := Some [''pool'', ''sauna'']\<rparr>)) [])
       \<noteq> mset (arr_or (amenities sample) [])"
    by (simp add: arr_or_def sample_def listing_of_def)
  have a2: "\<forall>a\<in>set (arr_or (amenities (sample\<lparr>amenities := Some [''pool'', ''sauna'']\<rparr>)) [])
              \<union> set (arr_or (amenities sample) []). a \<noteq> [] \<and> CHR ''|'' \<notin> set a"
    by (simp add: arr_or_def sample_def listing_of_def)
  note t3 = fingerprint_detection [where i = "''A''"
      and q = "sample\<lparr>amenities := Some [''pool'', ''sauna'']\<rparr>"
      and now = 5 and p = sample and s = empty_store]
  from t3 a1 a2
  have a3: "dataString (sample\<lparr>amenities := Some [''pool'', ''sauna'']\<rparr>) \<noteq> dataString sample"
    by blast
  have m1: "mset (arr_or (Some [''gym'', ''pool'']) []) = mset (arr_or (amenities sample) [])"
    by (simp add: arr_or_def sample_def listing_of_def)
  have m2: "mset (arr_or None []) = mset (arr_or (installations sample) [])"
    by (simp add: arr_or_def sample_def listing_of_def)
  have k: "39 < length (dataString sample)" by code_simp
  have d: "CHR ''b'' \<noteq> dataString sample ! 39" by code_simp
  have u: "dataString (sample\<lparr>status := Some ''Ab''\<rparr>) = (dataString sample)[39 := CHR ''b'']"
    by code_simp
  note t4 = fingerprint_detection [of "''A''" "sample\<lparr>status := Some ''Ab''\<rparr>" 5 sample
      empty_store "Some [''gym'', ''pool'']" None 39 "CHR ''b''"]
  from t4 m1 m2 have m3: "\<not> fst (hasPropertyChanged ''A''
       (sample\<lparr>amenities := Some [''gym'', ''pool''], installations := None\<rparr>) ?st)"
    by blast
  from t4 k d u have c: "fst (hasPropertyChanged ''A'' (sample\<lparr>status := Some ''Ab''\<rparr>) ?st)"
    by blast
  from p1 p2 p3 i1 i2 i4 a1 a3 m1 m2 m3 k d u c show ?thesis by (intro conjI)
qed

section \<open>The verdict of the Disappearance Verifier\<close>

lemma verifyProperty_cases:
  "verifyProperty e i =
     (case post_details e i of
        Response b \<Rightarrow> Inr (has_id b)
      | Failure err \<Rightarrow> if err = HttpStatus 404 then Inr False else Inl err)"
  by (simp add: verifyProperty_def split: http_outcome.splits)

lemma processMissingProperty_cases:
  "processMissingProperty e now i v =
     (case verifyProperty e i of
        Inl err \<Rightarrow> (False, v)
      | Inr True \<Rightarrow>
          (True, v\<lparr>vstore := updateLastSeen now i (vstore v),
                   foundActiveCount := foundActiveCount v + 1\<rparr>)
      | Inr False \<Rightarrow>
          if apiKey e = [] \<or> post_mark_inactive e (not_found_mark now i) = None
          then (True, v\<lparr>inactive_marks :=
                          (if apiKey e = [] then inactive_marks v
                           else inactive_marks v @ [not_found_mark now i]),
                        vstore := markVerifiedInactive i (vstore v),
                        verifiedInactiveCount := verifiedInactiveCount v + 1\<rparr>)
          else (False, v\<lparr>inactive_marks := inactive_marks v @ [not_found_mark now i]\<rparr>))"
  by (auto simp: processMissingProperty_def markPropertyInactive_def not_found_mark_def
        Let_def split: sum.splits option.splits bool.splits)

text \<open>
  Claim C5, as stated, fails for the empty and the malformed response. A detail request
  answered successfully with an empty body, or with a text that is no listing, makes
  \<^verbatim>\<open>verifyProperty\<close> answer false, and the verifier then marks the identifier Verified-Inactive
  and, with an API key configured, posts the inactive mark to the Core Service.
\<close>

theorem empty_response_marks_inactive:
  "post_details demo_env ''A'' = Response NoBody
   \<and> \<not> isVerifiedInactive ''A'' (vstore empty_verifier)
   \<and> isVerifiedInactive ''A''
        (vstore (snd (processMissingProperty demo_env 7 ''A'' empty_verifier)))
   \<and> inactive_marks (snd (processMissingProperty demo_env 7 ''A'' empty_verifier))
       = [not_found_mark 7 ''A'']
   \<and> isVerifiedInactive ''A''
        (vstore (snd (processMissingProperty
           (demo_env\<lparr>post_details := \<lambda>i. Response (Text ''<html>'')\<rparr>) 7 ''A'' empty_verifier)))
   \<and> inactive_marks (snd (processMissingProperty
           (demo_env\<lparr>post_details := \<lambda>i. Response (Text ''<html>'')\<rparr>) 7 ''A'' empty_verifier))
       = [not_found_mark 7 ''A'']"
  by (simp add: processMissingProperty_def verifyProperty_def has_id_def demo_env_def
        empty_verifier_def markPropertyInactive_def markVerifiedInactive_def
        isVerifiedInactive_def sismember_def sadd_def empty_store_def not_found_mark_def)

text \<open>
  Claim C5, amended. When the detail request fails with anything but HTTP 404 (a timeout,
  a 5xx answer, a connection reset) the verifier returns false and changes nothing: no
  Verified-Inactive mark, no post to the Core Service. When the answer carries a listing
  with an Id the identifier only gets a fresh Last-Seen mark. The identifier is marked
  Verified-Inactive when the request fails with HTTP 404 or is answered successfully
  without a listing Id (an empty or unrecognizable body), provided the post of the
  inactive mark, made only with an API key configured, is accepted; when that post is
  rejected the identifier is not marked. An identifier that becomes Verified-Inactive in
  the call had one of these two answers.
\<close>

theorem verifier_outcomes:
  "(\<forall>err. post_details e i = Failure err \<and> err \<noteq> HttpStatus 404 \<longrightarrow>
       processMissingProperty e now i v = (False, v))
   \<and> (\<forall>b. post_details e i = Response b \<and> has_id b \<longrightarrow>
       processMissingProperty e now i v =
         (True, v\<lparr>vstore := updateLastSeen now i (vstore v),
                  foundActiveCount := foundActiveCount v + 1\<rparr>))
   \<and> ((post_details e i = Failure (HttpStatus 404)
         \<or> (\<exists>b. post_details e i = Response b \<and> \<not> has_id b))
        \<and> (apiKey e = [] \<or> post_mark_inactive e (not_found_mark now i) = None) \<longrightarrow>
       processMissingProperty e now i v =
         (True, v\<lparr>inactive_marks :=
                    (if apiKey e = [] then inactive_marks v
                     else inactive_marks v @ [not_found_mark now i]),
                  vstore := markVerifiedInactive i (vstore v),
                  verifiedInactiveCount := verifiedInactiveCount v + 1\<rparr>))
   \<and> ((post_details e i = Failure (HttpStatus 404)
         \<or> (\<exists>b. post_details e i = Response b \<and> \<not> has_id b))
        \<and> apiKey e \<noteq> [] \<and> post_mark_inactive e (not_found_mark now i) \<noteq> None \<longrightarrow>
       processMissingProperty e now i v =
         (False, v\<lparr>inactive_marks := inactive_marks v @ [not_found_mark now i]\<rparr>))
   \<and> (isVerifiedInactive i (vstore (snd (processMissingProperty e now i v)))
        \<and> \<not> isVerifiedInactive i (vstore v) \<longrightarrow>
       post_details e i = Failure (HttpStatus 404)
       \<or> (\<exists>b. post_details e i = Response b \<and> \<not> has_id b))"
proof -
  have a: "\<forall>err. post_details e i = Failure err \<and> err \<noteq> HttpStatus 404 \<longrightarrow>
       processMissingProperty e now i v = (False, v)"
    by (simp add: processMissingProperty_cases verifyProperty_cases)
  have b: "\<forall>b. post_details e i = Response b \<and> has_id b \<longrightarrow>
       processMissingProperty e now i v =
         (True, v\<lparr>vstore := updateLastSeen now i (vstore v),
                  foundActiveCount := foundActiveCount v + 1\<rparr>)"
    by (simp add: processMissingProperty_cases verifyProperty_cases)
  have c: "(post_details e i = Failure (HttpStatus 404)
         \<or> (\<exists>b. post_details e i = Response b \<and> \<not> has_id b))
        \<and> (apiKey e = [] \<or> post_mark_inactive e (not_found_mark now i) = None) \<longrightarrow>
       processMissingProperty e now i v =
         (True, v\<lparr>inactive_marks :=
                    (if apiKey e = [] then inactive_marks v
                     else inactive_marks v @ [not_found_mark now i]),
                  vstore := markVerifiedInactive i (vstore v),
                  verifiedInactiveCount := verifiedInactiveCount v + 1\<rparr>)"
    by (auto simp: processMissingProperty_cases verifyProperty_cases)
  have d: "(post_details e i = Failure (HttpStatus 404)
         \<or> (\<exists>b. post_details e i = Response b \<and> \<not> has_id b))
        \<and> apiKey e \<noteq> [] \<and> post_mark_inactive e (not_found_mark now i) \<noteq> None \<longrightarrow>
       processMissingProperty e now i v =
         (False, v\<lparr>inactive_marks := inactive_marks v @ [not_found_mark now i]\<rparr>)"
    by (auto simp: processMissingProperty_cases verifyProperty_cases)
  have f: "isVerifiedInactive i (vstore (snd (processMissingProperty e now i v)))
        \<and> \<not> isVerifiedInactive i (vstore v) \<longrightarrow>
       post_details e i = Failure (HttpStatus 404)
       \<or> (\<exists>b. post_details e i = Response b \<and> \<not> has_id b)"
    by (cases "post_details e i")
      (auto simp: processMissingProperty_cases verifyProperty_cases isVerifiedInactive_def
         updateLastSeen_def split: if_splits)
  from a b c d f show ?thesis by blast
qed

theorem verifier_outcomes_witness:
  "post_details env_unavailable ''A'' = Failure (HttpStatus 503)
   \<and> HttpStatus 503 \<noteq> HttpStatus 404
   \<and> processMissingProperty env_unavailable 7 ''A'' empty_verifier = (False, empty_verifier)
   \<and> post_details env_listed ''A'' = Response (Details (Some ''123''))
   \<and> has_id (Details (Some ''123''))
   \<and> processMissingProperty env_listed 7 ''A'' empty_verifier =
        (True, empty_verifier\<lparr>vstore := updateLastSeen 7 ''A'' (vstore empty_verifier),
                 foundActiveCount := foundActiveCount empty_verifier + 1\<rparr>)
   \<and> post_details env_gone ''A'' = Failure (HttpStatus 404)
   \<and> post_mark_inactive env_gone (not_found_mark 7 ''A'') = None
   \<and> isVerifiedInactive ''A''
        (vstore (snd (processMissingProperty env_gone 7 ''A'' empty_verifier)))
   \<and> apiKey env_gone_rejecting \<noteq> []
   \<and> post_mark_inactive env_gone_rejecting (not_found_mark 7 ''A'') \<noteq> None
   \<and> processMissingProperty env_gone_rejecting 7 ''A'' empty_verifier
       = (False, empty_verifier\<lparr>inactive_marks :=
                                   inactive_marks empty_verifier @ [not_found_mark 7 ''A'']\<rparr>)"
proof -
  have u1: "post_details env_unavailable ''A'' = Failure (HttpStatus 503)"
    by (simp add: env_unavailable_def)
  have u2: "HttpStatus 503 \<noteq> HttpStatus 404" by simp
  from verifier_outcomes [of env_unavailable "''A''" 7 empty_verifier] u1 u2
  have u3: "processMissingProperty env_unavailable 7 ''A'' empty_verifier
              = (False, empty_verifier)"
    by blast
  have l1: "post_details env_listed ''A'' = Response (Details (Some ''123''))"
    by (simp add: env_listed_def)
  have l2: "has_id (Details (Some ''123''))" by (simp add: has_id_def)
  from verifier_outcomes [of env_listed "''A''" 7 empty_verifier] l1 l2
  have l3: "processMissingProperty env_listed 7 ''A'' empty_verifier =
        (True, empty_verifier\<lparr>vstore := updateLastSeen 7 ''A'' (vstore empty_verifier),
                 foundActiveCount := foundActiveCount empty_verifier + 1\<rparr>)"
    by blast
  have g1: "post_details env_gone ''A'' = Failure (HttpStatus 404)"
    by (simp add: env_gone_def)
  have g2: "post_mark_inactive env_gone (not_found_mark 7 ''A'') = None"
    by (simp add: env_gone_def demo_env_def)
  from verifier_outcomes [of env_gone "''A''" 7 empty_verifier] g1 g2
  have g3: "processMissingProperty env_gone 7 ''A'' empty_verifier =
         (True, empty_verifier\<lparr>inactive_marks :=
                    (if apiKey env_gone = [] then inactive_marks empty_verifier
                     else inactive_marks empty_verifier @ [not_found_mark 7 ''A'']),
                  vstore := markVerifiedInactive ''A'' (vstore empty_verifier),
                  verifiedInactiveCount := verifiedInactiveCount empty_verifier + 1\<rparr>)"
    by blast
  have g4: "isVerifiedInactive ''A''
        (vstore (snd (processMissingProperty env_gone 7 ''A'' empty_verifier)))"
    unfolding g3
    by (simp add: isVerifiedInactive_def markVerifiedInactive_def sismember_def sadd_set)
  have r1: "post_details env_gone_rejecting ''A'' = Failure (HttpStatus 404)"
    by (simp add: env_gone_rejecting_def)
  have r2: "apiKey env_gone_rejecting \<noteq> []"
    by (simp add: env_gone_rejecting_def demo_env_def)
  have r3: "post_mark_inactive env_gone_rejecting (not_found_mark 7 ''A'') \<noteq> None"
    by (simp add: env_gone_rejecting_def)
  from verifier_outcomes [of env_gone_rejecting "''A''" 7 empty_verifier] r1 r2 r3
  have r4: "processMissingProperty env_gone_rejecting 7 ''A'' empty_verifier
       = (False, empty_verifier\<lparr>inactive_marks :=
                                   inactive_marks empty_verifier @ [not_found_mark 7 ''A'']\<rparr>)"
    by blast
  from u1 u2 u3 l1 l2 l3 g1 g2 g4 r2 r3 r4 show ?thesis by blast
qed

section \<open>One identifier through the Inspection Worker\<close>

lemma on_changed_ok:
  "apiKey e = [] \<or> post_ingest e (ingest_payload e i p) = None \<Longrightarrow>
   on_changed e now i p w =
     Inr (w\<lparr>sink := (if apiKey e = [] then sink w else sink w @ [ingest_payload e i p]),
            wstore := fst (storePropertySnapshot now i p (wstore w)),
            changedCount := changedCount w + 1\<rparr>)"
  by (auto simp: on_changed_def sendToCoreService_def Let_def)

lemma hasPropertyChanged_snd:
  "snd (hasPropertyChanged i p s) =
     (if getPropertySnapshot i s = None then p else snd (calculatePropertyChecksum p))"
  by (simp add: hasPropertyChanged_def split: option.splits prod.splits)

lemma markProcessed_after:
  "isProcessed i (markProcessed i s) \<and> snapshots (markProcessed i s) = snapshots s"
  by (simp add: isProcessed_def markProcessed_def sismember_def sadd_set)

lemma processListing_skip:
  "isProcessed i (wstore w) \<Longrightarrow> processListing e now i w = (True, w)"
  by (simp add: processListing_def processListing_try_def)

lemma processListing_unchanged:
  "\<not> isProcessed i (wstore w) \<Longrightarrow> fetchDetail e i = Inr (Some p) \<Longrightarrow>
   \<not> fst (hasPropertyChanged i p (wstore w)) \<Longrightarrow>
   processListing e now i w =
     (True, w\<lparr>unchangedCount := unchangedCount w + 1,
              wstore := markProcessed i (wstore w),
              processedCount := processedCount w + 1\<rparr>)"
  by (auto simp: processListing_def processListing_try_def Let_def split: prod.splits)

lemma processListing_changed:
  assumes "\<not> isProcessed i (wstore w)" and "fetchDetail e i = Inr (Some p)"
    and "fst (hasPropertyChanged i p (wstore w))"
    and "apiKey e = []
         \<or> post_ingest e (ingest_payload e i (snd (hasPropertyChanged i p (wstore w)))) = None"
  shows "processListing e now i w =
     (True, w\<lparr>sink := (if apiKey e = [] then sink w
                        else sink w @ [ingest_payload e i
                                         (snd (hasPropertyChanged i p (wstore w)))]),
              wstore := markProcessed i
                (fst (storePropertySnapshot now i
                        (snd (hasPropertyChanged i p (wstore w))) (wstore w))),
              changedCount := changedCount w + 1,
              processedCount := processedCount w + 1\<rparr>)"
proof -
  obtain ch p1 where hp: "hasPropertyChanged i p (wstore w) = (ch, p1)"
    by (cases "hasPropertyChanged i p (wstore w)")
  from assms(3) hp have ch: "ch" by simp
  from assms(4) hp have ok: "apiKey e = [] \<or> post_ingest e (ingest_payload e i p1) = None"
    by simp
  show ?thesis
    using assms(1,2) ch
    by (simp add: processListing_def processListing_try_def hp on_changed_ok [OF ok])
qed

lemma hasPropertyChanged_leaves:
  "snd (hasPropertyChanged i p s) =
     (if getPropertySnapshot i s = None then p
      else p\<lparr>amenities := map_option sort (amenities p),
             installations := map_option sort (installations p)\<rparr>)"
  by (simp add: hasPropertyChanged_snd calculatePropertyChecksum_def sort_in_place_def)

lemma on_changed_thrown:
  "apiKey e \<noteq> [] \<Longrightarrow> post_ingest e (ingest_payload e i p) = Some err \<Longrightarrow>
   on_changed e now i p w = Inl (err, w\<lparr>sink := sink w @ [ingest_payload e i p]\<rparr>)"
  by (simp add: on_changed_def sendToCoreService_def Let_def)

lemma requeueWithRetry_frame:
  "snapshots (snd (requeueWithRetry i m s)) = snapshots s
   \<and> processed (snd (requeueWithRetry i m s)) = processed s"
  by (simp add: requeueWithRetry_eq)

lemma processListing_rejected:
  assumes "\<not> isProcessed i (wstore w)" and "fetchDetail e i = Inr (Some p)"
    and "fst (hasPropertyChanged i p (wstore w))"
    and "apiKey e \<noteq> []"
    and "post_ingest e (ingest_payload e i (snd (hasPropertyChanged i p (wstore w)))) = Some err"
  shows "processListing e now i w =
     (False, w\<lparr>sink := sink w @ [ingest_payload e i (snd (hasPropertyChanged i p (wstore w)))],
               wstore := snd (requeueWithRetry i 3 (wstore w)),
               failedCount := (if fst (requeueWithRetry i 3 (wstore w)) then failedCount w
                               else failedCount w + 1)\<rparr>)"
proof -
  obtain ch p1 where hp: "hasPropertyChanged i p (wstore w) = (ch, p1)"
    by (cases "hasPropertyChanged i p (wstore w)")
  from assms(3) hp have ch: "ch" by simp
  from assms(5) hp have rej: "post_ingest e (ingest_payload e i p1) = Some err" by simp
  obtain rq s1 where rr: "requeueWithRetry i 3 (wstore w) = (rq, s1)"
    by (cases "requeueWithRetry i 3 (wstore w)")
  show ?thesis
    using assms(1,2) ch
    by (simp add: processListing_def processListing_try_def hp rr
          on_changed_thrown [OF assms(4) rej])
qed

lemma stored_snapshot_of_left:
  "getPropertySnapshot i
      (markProcessed i (fst (storePropertySnapshot now i (snd (hasPropertyChanged i p s)) s)))
     = Some \<lparr>checksum = fst (calculatePropertyChecksum p),
             snap_price = num_or (rent p) (num_or (salePrice p) (num_or (price p) 0)),
             snap_status = str_or (visitStatus p) (str_or (status p) ''unknown''),
             updated_at = now\<rparr>"
proof -
  have sn: "getPropertySnapshot i (markProcessed i t) = getPropertySnapshot i t" for t
    by (simp add: getPropertySnapshot_def markProcessed_after)
  have cs: "fst (calculatePropertyChecksum (snd (hasPropertyChanged i p s)))
              = fst (calculatePropertyChecksum p)"
    by (simp add: hasPropertyChanged_snd checksum_sorted)
  have fs: "rent (snd (hasPropertyChanged i p s)) = rent p
      \<and> salePrice (snd (hasPropertyChanged i p s)) = salePrice p
      \<and> price (snd (hasPropertyChanged i p s)) = price p
      \<and> visitStatus (snd (hasPropertyChanged i p s)) = visitStatus p
      \<and> status (snd (hasPropertyChanged i p s)) = status p"
    by (simp add: hasPropertyChanged_leaves)
  show ?thesis by (simp only: sn stored_checksum cs fs)
qed

text \<open>
  Claim C8, as stated, fails when the Core Service rejects the send. For a new identifier
  \<open>A\<close>, with an API key configured and a post that times out, the change is detected and
  the normalized record is posted, but \<^verbatim>\<open>processListing\<close> returns false: no snapshot is
  written, the identifier is not marked Processed, and it is back on the main lane with
  one retry counted.
\<close>

theorem rejected_send_not_processed:
  "\<not> isProcessed ''A'' (wstore empty_worker)
   \<and> fetchDetail env_rejecting ''A'' = Inr (Some (listing_of ''A''))
   \<and> fst (hasPropertyChanged ''A'' (listing_of ''A'') (wstore empty_worker))
   \<and> apiKey env_rejecting = ''key''
   \<and> fst (processListing env_rejecting 5 ''A'' empty_worker) = False
   \<and> sink (snd (processListing env_rejecting 5 ''A'' empty_worker))
       = [\<lparr>portal = ''realtor'', portal_id = ''A'', country = ''canada'', data = (),
           raw_data = listing_of ''A'', payload_status = ''active''\<rparr>]
   \<and> getPropertySnapshot ''A'' (wstore (snd (processListing env_rejecting 5 ''A'' empty_worker)))
       = None
   \<and> \<not> isProcessed ''A'' (wstore (snd (processListing env_rejecting 5 ''A'' empty_worker)))
   \<and> queue (wstore (snd (processListing env_rejecting 5 ''A'' empty_worker))) = [''A'']"
proof -
  have r: "processListing env_rejecting 5 ''A'' empty_worker
     = (False, empty_worker\<lparr>sink := [ingest_payload env_rejecting ''A'' (listing_of ''A'')],
               wstore := empty_store\<lparr>retries := [''A'' \<mapsto> 1], queue := [''A'']\<rparr>\<rparr>)"
    by (simp add: processListing_def processListing_try_def env_rejecting_def demo_env_def
          fetchPropertyDetail_def empty_worker_def isProcessed_def sismember_def
          hasPropertyChanged_def getPropertySnapshot_def on_changed_def sendToCoreService_def
          requeueWithRetry_eq getRetryCount_def empty_store_def Let_def)
  show ?thesis
    unfolding r
    by (simp add: env_rejecting_def demo_env_def fetchPropertyDetail_def empty_worker_def
          isProcessed_def sismember_def hasPropertyChanged_def getPropertySnapshot_def
          empty_store_def ingest_payload_def config_portal_def config_country_def)
qed

text \<open>
  Claim C8, amended. For an identifier handed to \<^verbatim>\<open>processListing\<close>: when it is already in
  the Processed set the worker returns true and leaves everything as it was, whatever the
  fetch would answer. When the fetch yields a listing and the comparison reports no
  change, the sink and the snapshots are what they were and the identifier is marked
  Processed. When the comparison reports a change, the record to send is the listing as
  the comparison left it (its amenity and feature arrays sorted when a snapshot existed)
  with its normalization, under the portal \<open>realtor\<close>, the identifier, the country
  \<open>canada\<close> and the status \<open>active\<close>. Without an API key nothing is posted; with one the
  record is posted. When no API key is configured or the post is accepted, the snapshot of
  the identifier becomes that of the listing, stamped with the time of the call, and the
  identifier is marked Processed. When the post is rejected the worker returns false, the
  snapshots stay as they were, the identifier is not marked Processed and the store is
  what \<^verbatim>\<open>requeueWithRetry\<close> with a ceiling of 3 leaves. The counters move with the outcome.
\<close>

theorem processListing_outcomes:
  "(isProcessed i (wstore w) \<longrightarrow> processListing e now i w = (True, w))
   \<and> (\<not> isProcessed i (wstore w) \<and> fetchDetail e i = Inr (Some p)
        \<and> \<not> fst (hasPropertyChanged i p (wstore w)) \<longrightarrow>
        processListing e now i w =
          (True, w\<lparr>unchangedCount := unchangedCount w + 1,
                   wstore := markProcessed i (wstore w),
                   processedCount := processedCount w + 1\<rparr>)
        \<and> sink (snd (processListing e now i w)) = sink w
        \<and> snapshots (wstore (snd (processListing e now i w))) = snapshots (wstore w)
        \<and> isProcessed i (wstore (snd (processListing e now i w))))
   \<and> (\<not> isProcessed i (wstore w) \<and> fetchDetail e i = Inr (Some p)
        \<and> fst (hasPropertyChanged i p (wstore w))
        \<and> p' = (if getPropertySnapshot i (wstore w) = None then p
                 else p\<lparr>amenities := map_option sort (amenities p),
                        installations := map_option sort (installations p)\<rparr>)
        \<and> pl = \<lparr>portal = ''realtor'', portal_id = i, country = ''canada'',
                  data = transformToStandard e p', raw_data = p', payload_status = ''active''\<rparr>
        \<and> (apiKey e = [] \<or> post_ingest e pl = None) \<longrightarrow>
        processListing e now i w =
          (True, w\<lparr>sink := (if apiKey e = [] then sink w else sink w @ [pl]),
                   wstore := markProcessed i (fst (storePropertySnapshot now i p' (wstore w))),
                   changedCount := changedCount w + 1,
                   processedCount := processedCount w + 1\<rparr>)
        \<and> sink (snd (processListing e now i w))
            = (if apiKey e = [] then sink w else sink w @ [pl])
        \<and> getPropertySnapshot i (wstore (snd (processListing e now i w)))
            = Some \<lparr>checksum = fst (calculatePropertyChecksum p),
                    snap_price = num_or (rent p) (num_or (salePrice p) (num_or (price p) 0)),
                    snap_status = str_or (visitStatus p) (str_or (status p) ''unknown''),
                    updated_at = now\<rparr>
        \<and> isProcessed i (wstore (snd (processListing e now i w))))
   \<and> (\<not> isProcessed i (wstore w) \<and> fetchDetail e i = Inr (Some p)
        \<and> fst (hasPropertyChanged i p (wstore w))
        \<and> p' = (if getPropertySnapshot i (wstore w) = None then p
                 else p\<lparr>amenities := map_option sort (amenities p),
                        installations := map_option sort (installations p)\<rparr>)
        \<and> pl = \<lparr>portal = ''realtor'', portal_id = i, country = ''canada'',
                  data = transformToStandard e p', raw_data = p', payload_status = ''active''\<rparr>
        \<and> apiKey e \<noteq> [] \<and> post_ingest e pl \<noteq> None \<longrightarrow>
        processListing e now i w =
          (False, w\<lparr>sink := sink w @ [pl],
                    wstore := snd (requeueWithRetry i 3 (wstore w)),
                    failedCount := (if fst (requeueWithRetry i 3 (wstore w)) then failedCount w
                                    else failedCount w + 1)\<rparr>)
        \<and> sink (snd (processListing e now i w)) = sink w @ [pl]
        \<and> snapshots (wstore (snd (processListing e now i w))) = snapshots (wstore w)
        \<and> \<not> isProcessed i (wstore (snd (processListing e now i w))))"
proof -
  let ?left = "snd (hasPropertyChanged i p (wstore w))"
  have pay: "ingest_payload e i q =
      \<lparr>portal = ''realtor'', portal_id = i, country = ''canada'',
       data = transformToStandard e q, raw_data = q, payload_status = ''active''\<rparr>" for q
    by (simp add: ingest_payload_def config_portal_def config_country_def)
  have a: "isProcessed i (wstore w) \<longrightarrow> processListing e now i w = (True, w)"
    by (simp add: processListing_skip)
  have b: "\<not> isProcessed i (wstore w) \<and> fetchDetail e i = Inr (Some p)
          \<and> \<not> fst (hasPropertyChanged i p (wstore w)) \<longrightarrow>
        processListing e now i w =
          (True, w\<lparr>unchangedCount := unchangedCount w + 1,
                   wstore := markProcessed i (wstore w),
                   processedCount := processedCount w + 1\<rparr>)
        \<and> sink (snd (processListing e now i w)) = sink w
        \<and> snapshots (wstore (snd (processListing e now i w))) = snapshots (wstore w)
        \<and> isProcessed i (wstore (snd (processListing e now i w)))"
    by (simp add: processListing_unchanged markProcessed_after)
  have c: "\<not> isProcessed i (wstore w) \<and> fetchDetail e i = Inr (Some p)
        \<and> fst (hasPropertyChanged i p (wstore w))
        \<and> p' = (if getPropertySnapshot i (wstore w) = None then p
                 else p\<lparr>amenities := map_option sort (amenities p),
                        installations := map_option sort (installations p)\<rparr>)
        \<and> pl = \<lparr>portal = ''realtor'', portal_id = i, country = ''canada'',
                  data = transformToStandard e p', raw_data = p', payload_status = ''active''\<rparr>
        \<and> (apiKey e = [] \<or> post_ingest e pl = None) \<longrightarrow>
        processListing e now i w =
          (True, w\<lparr>sink := (if apiKey e = [] then sink w else sink w @ [pl]),
                   wstore := markProcessed i (fst (storePropertySnapshot now i p' (wstore w))),
                   changedCount := changedCount w + 1,
                   processedCount := processedCount w + 1\<rparr>)
        \<and> sink (snd (processListing e now i w))
            = (if apiKey e = [] then sink w else sink w @ [pl])
        \<and> getPropertySnapshot i (wstore (snd (processListing e now i w)))
            = Some \<lparr>checksum = fst (calculatePropertyChecksum p),
                    snap_price = num_or (rent p) (num_or (salePrice p) (num_or (price p) 0)),
                    snap_status = str_or (visitStatus p) (str_or (status p) ''unknown''),
                    updated_at = now\<rparr>
        \<and> isProcessed i (wstore (snd (processListing e now i w)))"
  proof (intro impI, elim conjE)
    assume h: "\<not> isProcessed i (wstore w)" "fetchDetail e i = Inr (Some p)"
      "fst (hasPropertyChanged i p (wstore w))"
      and p': "p' = (if getPropertySnapshot i (wstore w) = None then p
                 else p\<lparr>amenities := map_option sort (amenities p),
                        installations := map_option sort (installations p)\<rparr>)"
      and pl: "pl = \<lparr>portal = ''realtor'', portal_id = i, country = ''canada'',
                  data = transformToStandard e p', raw_data = p', payload_status = ''active''\<rparr>"
      and ok: "apiKey e = [] \<or> post_ingest e pl = None"
    have l: "?left = p'" unfolding p' by (rule hasPropertyChanged_leaves)
    have ip: "ingest_payload e i ?left = pl" unfolding l pl by (rule pay)
    from ok have ok': "apiKey e = [] \<or> post_ingest e (ingest_payload e i ?left) = None"
      unfolding ip .
    note eq = processListing_changed [OF h ok', of now, unfolded ip]
    have st: "getPropertySnapshot i
        (markProcessed i (fst (storePropertySnapshot now i ?left (wstore w))))
       = Some \<lparr>checksum = fst (calculatePropertyChecksum p),
                    snap_price = num_or (rent p) (num_or (salePrice p) (num_or (price p) 0)),
                    snap_status = str_or (visitStatus p) (str_or (status p) ''unknown''),
                    updated_at = now\<rparr>"
      by (rule stored_snapshot_of_left)
    show "processListing e now i w =
          (True, w\<lparr>sink := (if apiKey e = [] then sink w else sink w @ [pl]),
                   wstore := markProcessed i (fst (storePropertySnapshot now i p' (wstore w))),
                   changedCount := changedCount w + 1,
                   processedCount := processedCount w + 1\<rparr>)
        \<and> sink (snd (processListing e now i w))
            = (if apiKey e = [] then sink w else sink w @ [pl])
        \<and> getPropertySnapshot i (wstore (snd (processListing e now i w)))
            = Some \<lparr>checksum = fst (calculatePropertyChecksum p),
                    snap_price = num_or (rent p) (num_or (salePrice p) (num_or (price p) 0)),
                    snap_status = str_or (visitStatus p) (str_or (status p) ''unknown''),
                    updated_at = now\<rparr>
        \<and> isProcessed i (wstore (snd (processListing e now i w)))"
      unfolding eq using st by (simp add: l markProcessed_after)
  qed
  have d: "\<not> isProcessed i (wstore w) \<and> fetchDetail e i = Inr (Some p)
        \<and> fst (hasPropertyChanged i p (wstore w))
        \<and> p' = (if getPropertySnapshot i (wstore w) = None then p
                 else p\<lparr>amenities := map_option sort (amenities p),
                        installations := map_option sort (installations p)\<rparr>)
        \<and> pl = \<lparr>portal = ''realtor'', portal_id = i, country = ''canada'',
                  data = transformToStandard e p', raw_data = p', payload_status = ''active''\<rparr>
        \<and> apiKey e \<noteq> [] \<and> post_ingest e pl \<noteq> None \<longrightarrow>
        processListing e now i w =
          (False, w\<lparr>sink := sink w @ [pl],
                    wstore := snd (requeueWithRetry i 3 (wstore w)),
                    failedCount := (if fst (requeueWithRetry i 3 (wstore w)) then failedCount w
                                    else failedCount w + 1)\<rparr>)
        \<and> sink (snd (processListing e now i w)) = sink w @ [pl]
        \<and> snapshots (wstore (snd (processListing e now i w))) = snapshots (wstore w)
        \<and> \<not> isProcessed i (wstore (snd (processListing e now i w)))"
  proof (intro impI, elim conjE)
    assume h: "\<not> isProcessed i (wstore w)" "fetchDetail e i = Inr (Some p)"
      "fst (hasPropertyChanged i p (wstore w))"
      and p': "p' = (if getPropertySnapshot i (wstore w) = None then p
                 else p\<lparr>amenities := map_option sort (amenities p),
                        installations := map_option sort (installations p)\<rparr>)"
      and pl: "pl = \<lparr>portal = ''realtor'', portal_id = i, country = ''canada'',
                  data = transformToStandard e p', raw_data = p', payload_status = ''active''\<rparr>"
      and key: "apiKey e \<noteq> []" and rej: "post_ingest e pl \<noteq> None"
    have l: "?left = p'" unfolding p' by (rule hasPropertyChanged_leaves)
    have ip: "ingest_payload e i ?left = pl" unfolding l pl by (rule pay)
    from rej obtain err where "post_ingest e pl = Some err" by auto
    then have rej': "post_ingest e (ingest_payload e i ?left) = Some err" unfolding ip .
    note eq = processListing_rejected [OF h key rej', of now, unfolded ip]
    have np: "\<not> isProcessed i (snd (requeueWithRetry i 3 (wstore w)))"
      using h(1) by (simp add: isProcessed_def requeueWithRetry_frame)
    show "processListing e now i w =
          (False, w\<lparr>sink := sink w @ [pl],
                    wstore := snd (requeueWithRetry i 3 (wstore w)),
                    failedCount := (if fst (requeueWithRetry i 3 (wstore w)) then failedCount w
                                    else failedCount w + 1)\<rparr>)
        \<and> sink (snd (processListing e now i w)) = sink w @ [pl]
        \<and> snapshots (wstore (snd (processListing e now i w))) = snapshots (wstore w)
        \<and> \<not> isProcessed i (wstore (snd (processListing e now i w)))"
      unfolding eq using np by (simp add: requeueWithRetry_frame)
  qed
  from a b c d show ?thesis by (intro conjI)
qed

theorem processListing_outcomes_witness:
  "isProcessed ''A'' (wstore done_worker)
   \<and> processListing demo_env 5 ''A'' done_worker = (True, done_worker)
   \<and> \<not> isProcessed ''A'' (wstore seen_worker)
   \<and> fetchDetail demo_env ''A'' = Inr (Some (listing_of ''A''))
   \<and> \<not> fst (hasPropertyChanged ''A'' (listing_of ''A'') (wstore seen_worker))
   \<and> sink (snd (processListing demo_env 5 ''A'' seen_worker)) = sink seen_worker
   \<and> snapshots (wstore (snd (processListing demo_env 5 ''A'' seen_worker)))
       = snapshots (wstore seen_worker)
   \<and> isProcessed ''A'' (wstore (snd (processListing demo_env 5 ''A'' seen_worker)))
   \<and> \<not> isProcessed ''A'' (wstore empty_worker)
   \<and> fst (hasPropertyChanged ''A'' (listing_of ''A'') (wstore empty_worker))
   \<and> apiKey env_no_key = []
   \<and> sink (snd (processListing env_no_key 5 ''A'' empty_worker)) = sink empty_worker
   \<and> isProcessed ''A'' (wstore (snd (processListing env_no_key 5 ''A'' empty_worker)))
   \<and> post_ingest demo_env sample_payload = None
   \<and> sink (snd (processListing demo_env 5 ''A'' empty_worker))
       = sink empty_worker @ [sample_payload]
   \<and> getPropertySnapshot ''A'' (wstore (snd (processListing demo_env 5 ''A'' empty_worker)))
       = Some \<lparr>checksum = fst (calculatePropertyChecksum (listing_of ''A'')),
               snap_price = num_or (rent (listing_of ''A''))
                 (num_or (salePrice (listing_of ''A'')) (num_or (price (listing_of ''A'')) 0)),
               snap_status = str_or (visitStatus (listing_of ''A''))
                 (str_or (status (listing_of ''A'')) ''unknown''),
               updated_at = 5\<rparr>
   \<and> isProcessed ''A'' (wstore (snd (processListing demo_env 5 ''A'' empty_worker)))
   \<and> apiKey env_rejecting \<noteq> []
   \<and> post_ingest env_rejecting sample_payload \<noteq> None
   \<and> sink (snd (processListing env_rejecting 5 ''A'' empty_worker))
       = sink empty_worker @ [sample_payload]
   \<and> snapshots (wstore (snd (processListing env_rejecting 5 ''A'' empty_worker)))
       = snapshots (wstore empty_worker)
   \<and> \<not> isProcessed ''A'' (wstore (snd (processListing env_rejecting 5 ''A'' empty_worker)))"
proof -
  have f: "fetchDetail demo_env ''A'' = Inr (Some (listing_of ''A''))"
    by (simp add: demo_env_def fetchPropertyDetail_def)
  have fn: "fetchDetail env_no_key ''A'' = Inr (Some (listing_of ''A''))"
    by (simp add: env_no_key_def demo_env_def fetchPropertyDetail_def)
  have fr: "fetchDetail env_rejecting ''A'' = Inr (Some (listing_of ''A''))"
    by (simp add: env_rejecting_def demo_env_def fetchPropertyDetail_def)
  have d1: "isProcessed ''A'' (wstore done_worker)"
    by (simp add: done_worker_def markProcessed_after)
  from processListing_outcomes [where i = "''A''" and w = done_worker and e = demo_env
      and now = 5] d1
  have d2: "processListing demo_env 5 ''A'' done_worker = (True, done_worker)"
    by blast
  have ws: "wstore seen_worker
              = fst (storePropertySnapshot 1 ''A'' (listing_of ''A'') empty_store)"
    by (simp add: seen_worker_def)
  have s1: "\<not> isProcessed ''A'' (wstore seen_worker)"
    unfolding ws
    by (simp add: storePropertySnapshot_def isProcessed_def sismember_def empty_store_def
          Let_def split: prod.splits)
  have s2: "\<not> fst (hasPropertyChanged ''A'' (listing_of ''A'') (wstore seen_worker))"
    unfolding ws by (simp add: hasPropertyChanged_after_store)
  from processListing_outcomes [where i = "''A''" and w = seen_worker and e = demo_env
      and now = 5 and p = "listing_of ''A''"] s1 f s2
  have s3: "sink (snd (processListing demo_env 5 ''A'' seen_worker)) = sink seen_worker
     \<and> snapshots (wstore (snd (processListing demo_env 5 ''A'' seen_worker)))
         = snapshots (wstore seen_worker)
     \<and> isProcessed ''A'' (wstore (snd (processListing demo_env 5 ''A'' seen_worker)))"
    by blast
  have e1: "\<not> isProcessed ''A'' (wstore empty_worker)"
    by (simp add: empty_worker_def isProcessed_def sismember_def empty_store_def)
  have e2: "fst (hasPropertyChanged ''A'' (listing_of ''A'') (wstore empty_worker))"
    by (simp add: hasPropertyChanged_def getPropertySnapshot_def empty_worker_def
          empty_store_def)
  have lf: "listing_of ''A'' =
      (if getPropertySnapshot ''A'' (wstore empty_worker) = None then listing_of ''A''
       else (listing_of ''A'')\<lparr>amenities := map_option sort (amenities (listing_of ''A'')),
              installations := map_option sort (installations (listing_of ''A''))\<rparr>)"
    by (simp add: getPropertySnapshot_def empty_worker_def empty_store_def)
  have pd: "sample_payload =
      \<lparr>portal = ''realtor'', portal_id = ''A'', country = ''canada'',
       data = transformToStandard demo_env (listing_of ''A''), raw_data = listing_of ''A'',
       payload_status = ''active''\<rparr>"
    by (simp add: sample_payload_def)
  have pn: "sample_payload =
      \<lparr>portal = ''realtor'', portal_id = ''A'', country = ''canada'',
       data = transformToStandard env_no_key (listing_of ''A''), raw_data = listing_of ''A'',
       payload_status = ''active''\<rparr>"
    by (simp add: sample_payload_def)
  have pr: "sample_payload =
      \<lparr>portal = ''realtor'', portal_id = ''A'', country = ''canada'',
       data = transformToStandard env_rejecting (listing_of ''A''), raw_data = listing_of ''A'',
       payload_status = ''active''\<rparr>"
    by (simp add: sample_payload_def)
  have n1: "apiKey env_no_key = []" by (simp add: env_no_key_def)
  from processListing_outcomes [where i = "''A''" and w = empty_worker and e = env_no_key
      and now = 5 and p = "listing_of ''A''" and p' = "listing_of ''A''"
      and pl = sample_payload] e1 fn e2 lf pn n1
  have n0: "sink (snd (processListing env_no_key 5 ''A'' empty_worker))
       = (if apiKey env_no_key = [] then sink empty_worker
          else sink empty_worker @ [sample_payload])
     \<and> isProcessed ''A'' (wstore (snd (processListing env_no_key 5 ''A'' empty_worker)))"
    by blast
  from n0 have "sink (snd (processListing env_no_key 5 ''A'' empty_worker))
       = (if apiKey env_no_key = [] then sink empty_worker
          else sink empty_worker @ [sample_payload])"
    by (rule conjunct1)
  then have n2a: "sink (snd (processListing env_no_key 5 ''A'' empty_worker))
       = sink empty_worker"
    by (simp add: n1)
  from n0 have n2b: "isProcessed ''A''
       (wstore (snd (processListing env_no_key 5 ''A'' empty_worker)))"
    by (rule conjunct2)
  have k1: "post_ingest demo_env sample_payload = None" by (simp add: demo_env_def)
  have k0: "apiKey demo_env \<noteq> []" by (simp add: demo_env_def)
  from processListing_outcomes [where i = "''A''" and w = empty_worker and e = demo_env
      and now = 5 and p = "listing_of ''A''" and p' = "listing_of ''A''"
      and pl = sample_payload] e1 f e2 lf pd k1
  have k3: "sink (snd (processListing demo_env 5 ''A'' empty_worker))
       = (if apiKey demo_env = [] then sink empty_worker
          else sink empty_worker @ [sample_payload])
     \<and> getPropertySnapshot ''A'' (wstore (snd (processListing demo_env 5 ''A'' empty_worker)))
       = Some \<lparr>checksum = fst (calculatePropertyChecksum (listing_of ''A'')),
               snap_price = num_or (rent (listing_of ''A''))
                 (num_or (salePrice (listing_of ''A'')) (num_or (price (listing_of ''A'')) 0)),
               snap_status = str_or (visitStatus (listing_of ''A''))
                 (str_or (status (listing_of ''A'')) ''unknown''),
               updated_at = 5\<rparr>
     \<and> isProcessed ''A'' (wstore (snd (processListing demo_env 5 ''A'' empty_worker)))"
    by blast
  from k3 have "sink (snd (processListing demo_env 5 ''A'' empty_worker))
       = (if apiKey demo_env = [] then sink empty_worker
          else sink empty_worker @ [sample_payload])"
    by (rule conjunct1)
  then have k2a: "sink (snd (processListing demo_env 5 ''A'' empty_worker))
       = sink empty_worker @ [sample_payload]"
    by (simp add: k0)
  note k2b = k3 [THEN conjunct2]
  have r1: "apiKey env_rejecting \<noteq> []" by (simp add: env_rejecting_def demo_env_def)
  have r2: "post_ingest env_rejecting sample_payload \<noteq> None"
    by (simp add: env_rejecting_def)
  from processListing_outcomes [where i = "''A''" and w = empty_worker and e = env_rejecting
      and now = 5 and p = "listing_of ''A''" and p' = "listing_of ''A''"
      and pl = sample_payload] e1 fr e2 lf pr r1 r2
  have r3: "sink (snd (processListing env_rejecting 5 ''A'' empty_worker))
       = sink empty_worker @ [sample_payload]
     \<and> snapshots (wstore (snd (processListing env_rejecting 5 ''A'' empty_worker)))
       = snapshots (wstore empty_worker)
     \<and> \<not> isProcessed ''A'' (wstore (snd (processListing env_rejecting 5 ''A'' empty_worker)))"
    by blast
  from d1 d2 s1 f s2 s3 e1 e2 n1 n2a n2b k1 k2a k2b r1 r2 r3 show ?thesis by blast
qed

section \<open>The re-scan interval of a region\<close>



end
